theory Spec2Isabelle
  imports Complex_Main "HOL-Library.Sublist"
begin

text \<open>
  The receipt pipeline of the expense tracker: the field extractor
  (\<open>extractField\<close>, \<open>parseBankReceiptText\<close>) with the regular expressions it applies, the
  OCR pipeline around it (\<open>pdfToImageDataURL\<close>, \<open>extractTextWithOCR\<close>,
  \<open>parseBankReceiptPDF\<close>), and the consumers of its result (\<open>parseDate\<close>, \<open>parseAmount\<close>,
  \<open>receiptDataToExpense\<close>). The first part models the code, the second states and proves
  its properties.
\<close>

section \<open>Strings\<close>

text \<open>
  A JavaScript string is a sequence of UTF-16 code units. A code unit is modelled by its
  number; ASCII literals of the source are written with \<open>js\<close>.
\<close>

type_synonym code_unit = nat
type_synonym jsstring = "code_unit list"

definition ch :: "char \<Rightarrow> code_unit" where
  "ch c = of_char c"

definition js :: "string \<Rightarrow> jsstring" where
  "js s = map ch s"

definition LF :: code_unit where
  "LF = 10"

text \<open>
  The characters matched by \<open>\s\<close> in a regular expression and removed by
  \<open>String.prototype.trim\<close>: ECMAScript WhiteSpace and LineTerminator.
\<close>

definition is_space :: "code_unit \<Rightarrow> bool" where
  "is_space c =
     ((9 \<le> c \<and> c \<le> 13) \<or> c = 32 \<or> c = 160 \<or> c = 5760 \<or> (8192 \<le> c \<and> c \<le> 8202) \<or>
      c = 8232 \<or> c = 8233 \<or> c = 8239 \<or> c = 8287 \<or> c = 12288 \<or> c = 65279)"

definition trim :: "jsstring \<Rightarrow> jsstring" where
  "trim s = rev (dropWhile is_space (rev (dropWhile is_space s)))"

text \<open>
  Canonicalize of the regular expression semantics under the \<open>i\<close> flag (without \<open>u\<close>):
  a code unit is compared by its upper-case form. The table covers ASCII and the Latin-1
  letters with a Latin-1 upper-case form; this is exact for comparisons against the
  characters of the patterns in this file, since no other code unit canonicalizes to an
  ASCII character, to U+00C3 or to U+00A5. No character canonicalizes to a white space
  character either, so \<open>\s\<close> needs no canonicalization.
\<close>

definition canonicalize :: "code_unit \<Rightarrow> code_unit" where
  "canonicalize c =
     (if (97 \<le> c \<and> c \<le> 122) \<or> (224 \<le> c \<and> c \<le> 254 \<and> c \<noteq> 247) then c - 32 else c)"

section \<open>Regular expressions\<close>

text \<open>
  The patterns of the source use literal characters, character classes, greedy
  quantifiers on single characters, capture groups that are not nested, and the anchors
  \<open>^\<close> and \<open>$\<close>. A pattern is the list of its tokens in source order.
\<close>

datatype citem = One code_unit | Range code_unit code_unit | Space

datatype atom = Lit code_unit | Cls "citem list" | NCls "citem list"

datatype tok = Rep atom nat "nat option" | Open | Close | Bol | Eol

definition once :: "atom \<Rightarrow> tok" where "once a = Rep a 1 (Some 1)"
definition one_or_more :: "atom \<Rightarrow> tok" where "one_or_more a = Rep a 1 None"
definition zero_or_more :: "atom \<Rightarrow> tok" where "zero_or_more a = Rep a 0 None"
definition optional :: "atom \<Rightarrow> tok" where "optional a = Rep a 0 (Some 1)"
definition between :: "atom \<Rightarrow> nat \<Rightarrow> nat \<Rightarrow> tok" where "between a m n = Rep a m (Some n)"

definition lits :: "string \<Rightarrow> tok list" where
  "lits s = map (\<lambda>c. once (Lit (ch c))) s"

fun citem_matches :: "bool \<Rightarrow> citem \<Rightarrow> code_unit \<Rightarrow> bool" where
  "citem_matches ic (One m) c = (if ic then canonicalize m = canonicalize c else m = c)"
| "citem_matches ic (Range a b) c =
     (if ic then list_ex (\<lambda>m. canonicalize m = canonicalize c) [a..<Suc b]
      else a \<le> c \<and> c \<le> b)"
| "citem_matches ic Space c = is_space c"

fun atom_matches :: "bool \<Rightarrow> atom \<Rightarrow> code_unit \<Rightarrow> bool" where
  "atom_matches ic (Lit p) c = citem_matches ic (One p) c"
| "atom_matches ic (Cls items) c = list_ex (\<lambda>i. citem_matches ic i c) items"
| "atom_matches ic (NCls items) c = (\<not> list_ex (\<lambda>i. citem_matches ic i c) items)"

definition reach :: "bool \<Rightarrow> atom \<Rightarrow> nat option \<Rightarrow> jsstring \<Rightarrow> nat" where
  "reach ic a hi s =
     (let r = length (takeWhile (atom_matches ic a) s)
      in case hi of None \<Rightarrow> r | Some m \<Rightarrow> min m r)"

text \<open>
  \<open>bt ic ts pos s\<close> matches the tokens \<open>ts\<close> at position \<open>pos\<close> of the input, of which
  \<open>s\<close> is the rest; the result holds, for each token, the characters it consumed.
  A greedy quantifier first takes as many characters as it can and gives them back one
  at a time while the rest of the pattern fails: \<open>bt_rep ic ts pos s lo n\<close> tries the
  counts \<open>n, n - 1, \<dots>, lo\<close>, each followed by the rest \<open>ts\<close> of the pattern.
\<close>

fun bt :: "bool \<Rightarrow> tok list \<Rightarrow> nat \<Rightarrow> jsstring \<Rightarrow> jsstring list option"
  and bt_rep :: "bool \<Rightarrow> tok list \<Rightarrow> nat \<Rightarrow> jsstring \<Rightarrow> nat \<Rightarrow> nat \<Rightarrow> jsstring list option"
where
  "bt ic [] pos s = Some []"
| "bt ic (Rep a lo hi # ts) pos s = bt_rep ic ts pos s lo (reach ic a hi s)"
| "bt ic (Open # ts) pos s = map_option (Cons []) (bt ic ts pos s)"
| "bt ic (Close # ts) pos s = map_option (Cons []) (bt ic ts pos s)"
| "bt ic (Bol # ts) pos s = (if pos = 0 then map_option (Cons []) (bt ic ts pos s) else None)"
| "bt ic (Eol # ts) pos s = (if s = [] then map_option (Cons []) (bt ic ts pos s) else None)"
| "bt_rep ic ts pos s lo n =
     (if n < lo then None
      else (case bt ic ts (pos + n) (drop n s) of
              Some segs \<Rightarrow> Some (take n s # segs)
            | None \<Rightarrow> (if n = 0 then None else bt_rep ic ts pos s lo (n - 1))))"

declare bt_rep.simps [simp del]

text \<open>The captures: the characters consumed between each \<open>(\<close> and its \<open>)\<close>.\<close>

fun caps :: "tok list \<Rightarrow> jsstring list \<Rightarrow> jsstring option \<Rightarrow> jsstring list" where
  "caps (Open # ts) (g # gs) acc = caps ts gs (Some [])"
| "caps (Close # ts) (g # gs) acc =
     (case acc of Some a \<Rightarrow> a # caps ts gs None | None \<Rightarrow> caps ts gs None)"
| "caps (t # ts) (g # gs) acc = caps ts gs (map_option (\<lambda>a. a @ g) acc)"
| "caps ts gs acc = []"

text \<open>
  A successful match gives the matched text and the captures (elements \<open>0\<close> and
  \<open>1, 2, \<dots>\<close> of the match array). The search tries every start index from \<open>pos\<close>
  to the end of the input, leftmost first; it returns the start index with the match.
\<close>

type_synonym match_array = "jsstring \<times> jsstring list"

definition match_at :: "bool \<Rightarrow> tok list \<Rightarrow> nat \<Rightarrow> jsstring \<Rightarrow> match_array option" where
  "match_at ic ts pos s = map_option (\<lambda>segs. (concat segs, caps ts segs None)) (bt ic ts pos s)"

fun search :: "bool \<Rightarrow> tok list \<Rightarrow> nat \<Rightarrow> jsstring \<Rightarrow> (nat \<times> match_array) option" where
  "search ic ts pos [] = map_option (Pair pos) (match_at ic ts pos [])"
| "search ic ts pos (c # s) =
     (case match_at ic ts pos (c # s) of
        Some arr \<Rightarrow> Some (pos, arr)
      | None \<Rightarrow> search ic ts (Suc pos) s)"

subsection \<open>RegExp objects\<close>

text \<open>
  A RegExp object carries its flags and the mutable property \<open>lastIndex\<close>.
  \<open>RegExpBuiltinExec\<close> returns the match (or \<open>None\<close> for \<open>null\<close>) and the object as the
  call leaves it: only a global or sticky expression reads and writes \<open>lastIndex\<close>.
  For an expression without the \<open>g\<close> flag, which is every expression of the source,
  \<open>String.prototype.match\<close> is this operation.
\<close>

record regexp =
  toks :: "tok list"
  ignoreCase :: bool
  global :: bool
  sticky :: bool
  lastIndex :: nat

definition regex_literal :: "tok list \<Rightarrow> bool \<Rightarrow> regexp" where
  "regex_literal ts ic =
     \<lparr>toks = ts, ignoreCase = ic, global = False, sticky = False, lastIndex = 0\<rparr>"

definition RegExpBuiltinExec :: "regexp \<Rightarrow> jsstring \<Rightarrow> match_array option \<times> regexp" where
  "RegExpBuiltinExec R S =
     (let stateful = (global R \<or> sticky R);
          li = (if stateful then lastIndex R else 0)
      in if length S < li then (None, if stateful then R\<lparr>lastIndex := 0\<rparr> else R)
         else if sticky R then
           (case match_at (ignoreCase R) (toks R) li (drop li S) of
              None \<Rightarrow> (None, R\<lparr>lastIndex := 0\<rparr>)
            | Some arr \<Rightarrow> (Some arr, R\<lparr>lastIndex := li + length (fst arr)\<rparr>))
         else
           (case search (ignoreCase R) (toks R) li (drop li S) of
              None \<Rightarrow> (None, if stateful then R\<lparr>lastIndex := 0\<rparr> else R)
            | Some (i, arr) \<Rightarrow>
                (Some arr, if stateful then R\<lparr>lastIndex := i + length (fst arr)\<rparr> else R)))"

section \<open>Field extraction\<close>

text \<open>
  \<^verbatim>\<open>
  function extractField(text: string, pattern: RegExp): string | undefined {
    const match = text.match(pattern);
    return match?.[1]?.trim();
  }
  \<close>
  The model returns the field (\<open>None\<close> for \<open>undefined\<close>) and the pattern object after
  the call.
\<close>

definition extractField :: "jsstring \<Rightarrow> regexp \<Rightarrow> jsstring option \<times> regexp" where
  "extractField text pattern =
     (case RegExpBuiltinExec pattern text of
        (None, R) \<Rightarrow> (None, R)
      | (Some (m, cs), R) \<Rightarrow> ((case cs of [] \<Rightarrow> None | c # _ \<Rightarrow> Some (trim c)), R))"

text \<open>
  \<open>a || b || \<dots> || z\<close>: the first operand that is truthy (neither \<open>undefined\<close> nor the
  empty string); when none is, the value of the last operand. Operands after the first
  truthy one are not evaluated.
\<close>

definition truthy :: "jsstring option \<Rightarrow> bool" where
  "truthy v = (case v of None \<Rightarrow> False | Some s \<Rightarrow> s \<noteq> [])"

fun first_truthy :: "jsstring \<Rightarrow> regexp list \<Rightarrow> jsstring option \<times> regexp list" where
  "first_truthy text [] = (None, [])"
| "first_truthy text [p] = (case extractField text p of (v, p') \<Rightarrow> (v, [p']))"
| "first_truthy text (p # ps) =
     (case extractField text p of
        (v, p') \<Rightarrow>
          if truthy v then (v, p' # ps)
          else (case first_truthy text ps of (w, ps') \<Rightarrow> (w, p' # ps')))"

record BankReceiptData =
  r_from :: "jsstring option"
  r_to :: "jsstring option"
  r_amount :: "jsstring option"
  r_transactionType :: "jsstring option"
  r_date :: "jsstring option"

subsection \<open>The patterns of parseBankReceiptText\<close>

definition colon_or_space :: atom where
  "colon_or_space = Cls [One (ch CHR '':''), Space]"

definition digit :: citem where
  "digit = Range (ch CHR ''0'') (ch CHR ''9'')"

definition dash_or_slash :: atom where
  "dash_or_slash = Cls [One (ch CHR ''-''), One (ch CHR ''/'')]"

text \<open>\<^verbatim>\<open>/<label>[:\s]+([^\n]+)/i\<close>\<close>

definition labelled :: "tok list \<Rightarrow> regexp" where
  "labelled label =
     regex_literal (label @ [one_or_more colon_or_space, Open, one_or_more (NCls [One LF]), Close]) True"

text \<open>\<^verbatim>\<open>/<label>[:\s]+\$?([0-9,\s]+\.?[0-9]*)/i\<close>\<close>

definition labelled_amount :: "tok list \<Rightarrow> regexp" where
  "labelled_amount label =
     regex_literal
       (label @ [one_or_more colon_or_space, optional (Lit (ch CHR ''$'')), Open,
                 one_or_more (Cls [digit, One (ch CHR '',''), Space]), optional (Lit (ch CHR ''.'')),
                 zero_or_more (Cls [digit]), Close]) True"

text \<open>\<^verbatim>\<open>/<label>[:\s]+([0-9]{1,2}[-\/][0-9]{1,2}[-\/][0-9]{2,4})/i\<close>\<close>

definition labelled_date :: "tok list \<Rightarrow> regexp" where
  "labelled_date label =
     regex_literal
       (label @ [one_or_more colon_or_space, Open,
                 between (Cls [digit]) 1 2, once dash_or_slash,
                 between (Cls [digit]) 1 2, once dash_or_slash,
                 between (Cls [digit]) 2 4, Close]) True"

text \<open>
  The fourth label of the sender is, in the source file, the five characters
  F, r, U+00C3, U+00A5, n.
\<close>

definition from_patterns :: "regexp list" where
  "from_patterns =
     [labelled (lits ''FROM''),
      labelled (lits ''Sender''),
      labelled (lits ''Payer''),
      labelled (lits ''Fr'' @ [once (Lit 195), once (Lit 165)] @ lits ''n'')]"

definition to_patterns :: "regexp list" where
  "to_patterns =
     [labelled (lits ''TO''),
      labelled (lits ''Recipient''),
      labelled (lits ''Payee''),
      labelled (lits ''Merchant''),
      labelled (lits ''Till''),
      labelled (lits ''Mottagare'')]"

text \<open>\<^verbatim>\<open>/Belopp[:\s]+([0-9,\s]+[.,]?[0-9]*)/i\<close>\<close>

definition amount_belopp :: regexp where
  "amount_belopp =
     regex_literal
       (lits ''Belopp'' @
        [one_or_more colon_or_space, Open,
         one_or_more (Cls [digit, One (ch CHR '',''), Space]),
         optional (Cls [One (ch CHR ''.''), One (ch CHR '','')]),
         zero_or_more (Cls [digit]), Close]) True"

text \<open>\<^verbatim>\<open>/([0-9\s]+[.,][0-9]{2})\s*kr/i\<close>\<close>

definition amount_kr_suffix :: regexp where
  "amount_kr_suffix =
     regex_literal
       ([Open, one_or_more (Cls [digit, Space]),
         once (Cls [One (ch CHR ''.''), One (ch CHR '','')]),
         between (Cls [digit]) 2 2, Close, zero_or_more (Cls [Space])] @ lits ''kr'') True"

text \<open>\<^verbatim>\<open>/\$?\s*([0-9,\s]+\.[0-9]{2})/\<close>\<close>

definition amount_generic :: regexp where
  "amount_generic =
     regex_literal
       [optional (Lit (ch CHR ''$'')), zero_or_more (Cls [Space]), Open,
        one_or_more (Cls [digit, One (ch CHR '',''), Space]), once (Lit (ch CHR ''.'')),
        between (Cls [digit]) 2 2, Close] False"

definition amount_patterns :: "regexp list" where
  "amount_patterns =
     [labelled_amount (lits ''AMOUNT''),
      labelled_amount (lits ''Total''),
      amount_belopp,
      amount_kr_suffix,
      amount_generic]"

definition transactionType_patterns :: "regexp list" where
  "transactionType_patterns =
     [labelled (lits ''TRANSACTION TYPE''),
      labelled (lits ''Type''),
      labelled (lits ''Payment Method''),
      labelled (lits ''Transaktionstyp''),
      labelled (lits ''Typ'')]"

text \<open>\<^verbatim>\<open>/([0-9]{4}[-\/][0-9]{1,2}[-\/][0-9]{1,2})/\<close>\<close>

definition date_iso :: regexp where
  "date_iso =
     regex_literal
       [Open, between (Cls [digit]) 4 4, once dash_or_slash,
        between (Cls [digit]) 1 2, once dash_or_slash,
        between (Cls [digit]) 1 2, Close] False"

text \<open>\<^verbatim>\<open>/([0-9]{1,2}[-\/][0-9]{1,2}[-\/][0-9]{2,4})/\<close>\<close>

definition date_bare :: regexp where
  "date_bare =
     regex_literal
       [Open, between (Cls [digit]) 1 2, once dash_or_slash,
        between (Cls [digit]) 1 2, once dash_or_slash,
        between (Cls [digit]) 2 4, Close] False"

definition date_patterns :: "regexp list" where
  "date_patterns =
     [labelled_date (lits ''DATE''),
      labelled_date (lits ''Transaction Date''),
      labelled_date (lits ''Datum''),
      date_iso,
      date_bare]"

record receipt_patterns =
  from_rx :: "regexp list"
  to_rx :: "regexp list"
  amount_rx :: "regexp list"
  transactionType_rx :: "regexp list"
  date_rx :: "regexp list"

definition receipt_literals :: receipt_patterns where
  "receipt_literals =
     \<lparr>from_rx = from_patterns, to_rx = to_patterns, amount_rx = amount_patterns,
      transactionType_rx = transactionType_patterns, date_rx = date_patterns\<rparr>"

text \<open>
  The fields are computed in source order, each by its own chain of patterns.
  \<open>parseBankReceiptText_on\<close> also returns the pattern objects as the call leaves them;
  \<open>parseBankReceiptText\<close> is the function of the source, which evaluates its regular
  expression literals to fresh objects.
\<close>

definition parseBankReceiptText_on ::
  "receipt_patterns \<Rightarrow> jsstring \<Rightarrow> BankReceiptData \<times> receipt_patterns" where
  "parseBankReceiptText_on P text =
     (case first_truthy text (from_rx P) of (f, P1) \<Rightarrow>
      case first_truthy text (to_rx P) of (t, P2) \<Rightarrow>
      case first_truthy text (amount_rx P) of (a, P3) \<Rightarrow>
      case first_truthy text (transactionType_rx P) of (ty, P4) \<Rightarrow>
      case first_truthy text (date_rx P) of (d, P5) \<Rightarrow>
        (\<lparr>r_from = f, r_to = t, r_amount = a, r_transactionType = ty, r_date = d\<rparr>,
         \<lparr>from_rx = P1, to_rx = P2, amount_rx = P3, transactionType_rx = P4, date_rx = P5\<rparr>))"

definition parseBankReceiptText :: "jsstring \<Rightarrow> BankReceiptData" where
  "parseBankReceiptText text = fst (parseBankReceiptText_on receipt_literals text)"

subsection \<open>Sample transcriptions\<close>

text \<open>
  \<^verbatim>\<open>"FROM: Alice Corp\nTO: Bob LLC\nAMOUNT: $42.50\nDATE: 2025-03-14"\<close>
\<close>

definition receipt_en :: jsstring where
  "receipt_en =
     js ''FROM: Alice Corp'' @ [LF] @ js ''TO: Bob LLC'' @ [LF] @
     js ''AMOUNT: $42.50'' @ [LF] @ js ''DATE: 2025-03-14''"

text \<open>
  \<^verbatim>\<open>"Fr?n: Handlaren AB\nBelopp: 123,45 kr"\<close>, where \<open>?\<close> stands for the single
  character U+00E5 (a with ring above) of the Swedish word.
\<close>

definition receipt_sv :: jsstring where
  "receipt_sv =
     js ''Fr'' @ [229] @ js ''n: Handlaren AB'' @ [LF] @ js ''Belopp: 123,45 kr''"

section \<open>The OCR pipeline\<close>

text \<open>
  The pipeline calls the PDF library, the canvas, the OCR engine, the progress callback
  and the console. The model records every such call, in order, in a trace; what a call
  does (return, or throw) is given by an environment. A computation takes the trace so
  far and returns its outcome, \<open>Inl\<close> for a thrown exception, with the extended trace.
\<close>

datatype exn =
    PDFLoadError jsstring
  | PDFExtractionError jsstring
  | Error jsstring
  | Thrown

datatype op =
    ArrayBuffer | GetDocument | GetPage | CreateCanvas | GetContext | GetViewport | Render
  | Destroy | ToDataURL | CreateWorker | Recognize | Terminate | OnProgress nat | ConsoleError

type_synonym 'a io = "op list \<Rightarrow> (exn + 'a) \<times> op list"

definition io_return :: "'a \<Rightarrow> 'a io" where
  "io_return v tr = (Inr v, tr)"

definition throw :: "exn \<Rightarrow> 'a io" where
  "throw e tr = (Inl e, tr)"

definition io_bind :: "'a io \<Rightarrow> ('a \<Rightarrow> 'b io) \<Rightarrow> 'b io" where
  "io_bind m f tr = (case m tr of (Inl e, tr') \<Rightarrow> (Inl e, tr') | (Inr v, tr') \<Rightarrow> f v tr')"

text \<open>A call of an external operation: it is recorded, then returns or throws.\<close>

definition call :: "op \<Rightarrow> exn + 'a \<Rightarrow> 'a io" where
  "call x outcome tr = (outcome, tr @ [x])"

definition unit_outcome :: "exn option \<Rightarrow> exn + unit" where
  "unit_outcome r = (case r of None \<Rightarrow> Inr () | Some e \<Rightarrow> Inl e)"

text \<open>\<^verbatim>\<open>try { m } finally { fin }\<close>: an exception of \<open>fin\<close> replaces the outcome of \<open>m\<close>.\<close>

definition try_finally :: "'a io \<Rightarrow> unit io \<Rightarrow> 'a io" where
  "try_finally m fin tr =
     (case m tr of
        (r, tr') \<Rightarrow> (case fin tr' of (Inl e, tr'') \<Rightarrow> (Inl e, tr'') | (Inr _, tr'') \<Rightarrow> (r, tr'')))"

text \<open>\<^verbatim>\<open>try { m } catch (err) { h }\<close>\<close>

definition try_catch :: "'a io \<Rightarrow> (exn \<Rightarrow> 'a io) \<Rightarrow> 'a io" where
  "try_catch m h tr = (case m tr of (Inl e, tr') \<Rightarrow> h e tr' | (Inr v, tr') \<Rightarrow> (Inr v, tr'))"

record File =
  file_type :: jsstring
  file_size :: nat

record environment =
  arrayBuffer_result :: "exn option"
  getDocument_result :: "exn option"
  getPage_result :: "exn option"
  createCanvas_result :: "exn option"
  getContext_result :: "exn + bool"
  getViewport_result :: "exn option"
  render_result :: "exn option"
  destroy_result :: "exn option"
  toDataURL_result :: "exn + jsstring"
  createWorker_result :: "exn option"
  recognize_result :: "exn + jsstring"
  terminate_result :: "exn option"
  onProgress :: "(nat \<Rightarrow> exn option) option"

text \<open>
  \<^verbatim>\<open>
  async function pdfToImageDataURL(file: File): Promise<string> {
    const arrayBuffer = await file.arrayBuffer();
    const loadingTask = pdfjsLib.getDocument({ data: arrayBuffer });
    const pdf = await loadingTask.promise;
    const page = await pdf.getPage(1);
    const canvas = document.createElement('canvas');
    const context = canvas.getContext('2d');
    if (!context) {
      throw new Error('Failed to get canvas context');
    }
    const scale = 2.0;
    const viewport = page.getViewport({ scale });
    canvas.width = viewport.width;
    canvas.height = viewport.height;
    await page.render({ canvasContext: context, viewport: viewport }).promise;
    await pdf.destroy();
    return canvas.toDataURL('image/png');
  }
  \<close>
  \<open>getContext_result\<close> is \<open>Inr False\<close> when \<open>getContext\<close> returns \<open>null\<close>.
\<close>

definition pdfToImageDataURL :: "environment \<Rightarrow> File \<Rightarrow> jsstring io" where
  "pdfToImageDataURL env file =
     io_bind (call ArrayBuffer (unit_outcome (arrayBuffer_result env))) (\<lambda>_.
     io_bind (call GetDocument (unit_outcome (getDocument_result env))) (\<lambda>_.
     io_bind (call GetPage (unit_outcome (getPage_result env))) (\<lambda>_.
     io_bind (call CreateCanvas (unit_outcome (createCanvas_result env))) (\<lambda>_.
     io_bind (call GetContext (getContext_result env)) (\<lambda>context.
       if \<not> context then throw (Error (js ''Failed to get canvas context''))
       else
         io_bind (call GetViewport (unit_outcome (getViewport_result env))) (\<lambda>_.
         io_bind (call Render (unit_outcome (render_result env))) (\<lambda>_.
         io_bind (call Destroy (unit_outcome (destroy_result env))) (\<lambda>_.
         call ToDataURL (toDataURL_result env)))))))))"

text \<open>
  \<^verbatim>\<open>
  async function extractTextWithOCR(file: File): Promise<string> {
    const worker = await createWorker('eng');
    try {
      let imageSource: string | File = file;
      if (file.type === 'application/pdf') {
        imageSource = await pdfToImageDataURL(file);
      }
      const { data: { text } } = await worker.recognize(imageSource);
      return text;
    } finally {
      await worker.terminate();
    }
  }
  \<close>
\<close>

definition extractTextWithOCR :: "environment \<Rightarrow> File \<Rightarrow> jsstring io" where
  "extractTextWithOCR env file =
     io_bind (call CreateWorker (unit_outcome (createWorker_result env))) (\<lambda>_.
       try_finally
         (io_bind
            (if file_type file = js ''application/pdf''
             then io_bind (pdfToImageDataURL env file) (\<lambda>_. io_return ())
             else io_return ())
            (\<lambda>_. call Recognize (recognize_result env)))
         (call Terminate (unit_outcome (terminate_result env))))"

text \<open>\<open>String.prototype.includes\<close>\<close>

fun str_includes :: "jsstring \<Rightarrow> jsstring \<Rightarrow> bool" where
  "str_includes [] pat = (pat = [])"
| "str_includes (c # s) pat = (prefix pat (c # s) \<or> str_includes s pat)"

record parse_result =
  success :: bool
  data :: "BankReceiptData option"
  rawText :: "jsstring option"
  error :: "jsstring option"

text \<open>\<open>onProgress?.(n)\<close>\<close>

definition progress :: "environment \<Rightarrow> nat \<Rightarrow> unit io" where
  "progress env n =
     (case onProgress env of
        None \<Rightarrow> io_return ()
      | Some callback \<Rightarrow> call (OnProgress n) (unit_outcome (callback n)))"

definition maxSize :: nat where
  "maxSize = 10 * 1024 * 1024"

text \<open>The \<open>try\<close> block of parseBankReceiptPDF.\<close>

definition parseBankReceiptPDF_try :: "environment \<Rightarrow> File \<Rightarrow> parse_result io" where
  "parseBankReceiptPDF_try env file =
     (if \<not> str_includes (file_type file) (js ''pdf'') \<and> \<not> str_includes (file_type file) (js ''image'')
      then throw (PDFLoadError (js ''Invalid file type. Please upload a PDF or image file.''))
      else if maxSize < file_size file
      then throw (PDFLoadError (js ''File size exceeds 10MB limit.''))
      else if file_size file = 0
      then throw (PDFLoadError (js ''File is empty.''))
      else
        io_bind (progress env 10) (\<lambda>_.
        io_bind (extractTextWithOCR env file) (\<lambda>fullText.
        io_bind (progress env 90) (\<lambda>_.
          if length (trim fullText) = 0
          then throw (PDFExtractionError
                 (js ''No text content found. The image might be too blurry or low quality.''))
          else
            io_bind (io_return (parseBankReceiptText fullText)) (\<lambda>d.
            io_bind (progress env 100) (\<lambda>_.
            io_return \<lparr>success = True, data = Some d, rawText = Some fullText,
                       error = None\<rparr>))))))"

text \<open>
  The \<open>catch\<close> block: the message of a PDFLoadError or PDFExtractionError as it is; any
  other exception is logged and its message, or \<open>Unknown error occurred\<close> for a thrown
  value that is not an Error, is prefixed. \<open>console.error\<close> returns.
\<close>

definition parseBankReceiptPDF_catch :: "exn \<Rightarrow> parse_result io" where
  "parseBankReceiptPDF_catch err =
     (case err of
        PDFLoadError message \<Rightarrow>
          io_return \<lparr>success = False, data = None, rawText = None, error = Some message\<rparr>
      | PDFExtractionError message \<Rightarrow>
          io_return \<lparr>success = False, data = None, rawText = None, error = Some message\<rparr>
      | _ \<Rightarrow>
          (let errorMessage = (case err of Error message \<Rightarrow> message
                                | _ \<Rightarrow> js ''Unknown error occurred'')
           in io_bind (call ConsoleError (Inr ())) (\<lambda>_.
              io_return \<lparr>success = False, data = None, rawText = None,
                         error = Some (js ''Failed to process file: '' @ errorMessage)\<rparr>)))"

definition parseBankReceiptPDF :: "environment \<Rightarrow> File \<Rightarrow> parse_result io" where
  "parseBankReceiptPDF env file =
     try_catch (parseBankReceiptPDF_try env file) parseBankReceiptPDF_catch"

section \<open>Dates and amounts\<close>

subsection \<open>The Date object\<close>

text \<open>
  A Date is invalid or holds a time; the model keeps the time as local wall-clock time,
  in milliseconds from the local midnight of 1 January 1970. \<open>DayFromYear\<close>, \<open>MakeDay\<close>
  and the constructor follow the ECMAScript definitions: the month index and the day may
  lie outside their calendar ranges and are carried over, a year from 0 to 99 means 1900
  to 1999, and a time beyond 8.64e15 ms is invalid. The conversion from local time to UTC
  is not modelled: where the local midnight falls in a gap of the local clock the Date of
  the code reads one hour later on the same day, and the bound of 8.64e15 ms is compared
  on the local time, so it is off by the time zone offset at that boundary only. The
  properties below compare Dates that the same constructor builds and use the bound far
  from its boundary.
\<close>

datatype jsdate = InvalidDate | Time int

definition isValid :: "jsdate \<Rightarrow> bool" where
  "isValid d = (d \<noteq> InvalidDate)"

definition DayFromYear :: "int \<Rightarrow> int" where
  "DayFromYear y =
     365 * (y - 1970) + (y - 1969) div 4 - (y - 1901) div 100 + (y - 1601) div 400"

definition leap_year :: "int \<Rightarrow> bool" where
  "leap_year y = ((y mod 4 = 0 \<and> y mod 100 \<noteq> 0) \<or> y mod 400 = 0)"

definition days_before_month :: "int \<Rightarrow> int \<Rightarrow> int" where
  "days_before_month y mn =
     (if mn = 0 then 0
      else if mn = 1 then 31
      else (if leap_year y then 1 else 0) +
        (if mn = 2 then 59 else if mn = 3 then 90 else if mn = 4 then 120
         else if mn = 5 then 151 else if mn = 6 then 181 else if mn = 7 then 212
         else if mn = 8 then 243 else if mn = 9 then 273 else if mn = 10 then 304
         else 334))"

definition MakeDay :: "int \<Rightarrow> int \<Rightarrow> int \<Rightarrow> int" where
  "MakeDay year month dt =
     (let ym = year + month div 12; mn = month mod 12
      in DayFromYear ym + days_before_month ym mn + dt - 1)"

definition msPerDay :: int where
  "msPerDay = 86400000"

text \<open>\<open>new Date(year, monthIndex, day)\<close>\<close>

definition new_Date :: "int \<Rightarrow> int \<Rightarrow> int \<Rightarrow> jsdate" where
  "new_Date year monthIndex day =
     (let yr = (if 0 \<le> year \<and> year \<le> 99 then 1900 + year else year);
          t = MakeDay yr monthIndex day * msPerDay
      in if \<bar>t\<bar> \<le> 8640000000000000 then Time t else InvalidDate)"

subsection \<open>parseDate\<close>

text \<open>
  \<open>parseInt(s, 10)\<close>: leading white space, an optional sign, then the longest run of
  decimal digits; \<open>None\<close> stands for NaN.
\<close>

definition is_digit :: "code_unit \<Rightarrow> bool" where
  "is_digit c = (48 \<le> c \<and> c \<le> 57)"

definition digits_value :: "jsstring \<Rightarrow> int" where
  "digits_value ds = foldl (\<lambda>n c. 10 * n + (int c - 48)) 0 ds"

definition parseInt :: "jsstring \<Rightarrow> int option" where
  "parseInt s =
     (let t = dropWhile is_space s;
          negative = (case t of [] \<Rightarrow> False | c # _ \<Rightarrow> c = ch CHR ''-'');
          u = (case t of [] \<Rightarrow> []
               | c # r \<Rightarrow> if c = ch CHR ''-'' \<or> c = ch CHR ''+'' then r else t);
          ds = takeWhile is_digit u
      in if ds = [] then None
         else Some (if negative then - digits_value ds else digits_value ds))"

text \<open>
  \<^verbatim>\<open>/^(\d{1,2})[-\/](\d{1,2})[-\/](\d{2,4})$/\<close> and
  \<^verbatim>\<open>/^(\d{4})[-\/](\d{1,2})[-\/](\d{1,2})$/\<close>
\<close>

definition format_mdy :: regexp where
  "format_mdy =
     regex_literal
       [Bol, Open, between (Cls [digit]) 1 2, Close, once dash_or_slash,
        Open, between (Cls [digit]) 1 2, Close, once dash_or_slash,
        Open, between (Cls [digit]) 2 4, Close, Eol] False"

definition format_ymd :: regexp where
  "format_ymd =
     regex_literal
       [Bol, Open, between (Cls [digit]) 4 4, Close, once dash_or_slash,
        Open, between (Cls [digit]) 1 2, Close, once dash_or_slash,
        Open, between (Cls [digit]) 1 2, Close, Eol] False"

text \<open>The three captures of a match, parsed as integers.\<close>

definition int_captures :: "regexp \<Rightarrow> jsstring \<Rightarrow> (int option \<times> int option \<times> int option) option" where
  "int_captures format dateString =
     (case fst (RegExpBuiltinExec format dateString) of
        Some (m, [c1, c2, c3]) \<Rightarrow> Some (parseInt c1, parseInt c2, parseInt c3)
      | _ \<Rightarrow> None)"

text \<open>\<open>new Date(year, month - 1, day)\<close>; an argument that is NaN gives an invalid Date.\<close>

definition date_of_parts :: "int option \<Rightarrow> int option \<Rightarrow> int option \<Rightarrow> jsdate" where
  "date_of_parts year month day =
     (case (year, month, day) of
        (Some y, Some m, Some d) \<Rightarrow> new_Date y (m - 1) d
      | _ \<Rightarrow> InvalidDate)"

text \<open>\<open>if (year < 100) { year += year < 50 ? 2000 : 1900; }\<close>\<close>

definition window_year :: "int option \<Rightarrow> int option" where
  "window_year year = map_option (\<lambda>y. if y < 100 then y + (if y < 50 then 2000 else 1900) else y) year"

text \<open>
  parseDate tries the two formats in order and returns the first valid Date, then tries
  \<open>parseISO\<close>; \<open>None\<close> stands for \<open>null\<close>. \<open>parseISO\<close> belongs to the date-fns library
  and is a parameter of the model.
\<close>

definition parseDate :: "(jsstring \<Rightarrow> jsdate) \<Rightarrow> jsstring \<Rightarrow> jsdate option" where
  "parseDate parseISO dateString =
     (let first =
        (case int_captures format_mdy dateString of
           Some (month, day, year) \<Rightarrow>
             (let date = date_of_parts (window_year year) month day
              in if isValid date then Some date else None)
         | None \<Rightarrow> None)
      in case first of
        Some date \<Rightarrow> Some date
      | None \<Rightarrow>
          (let second =
             (case int_captures format_ymd dateString of
                Some (year, month, day) \<Rightarrow>
                  (let date = date_of_parts year month day
                   in if isValid date then Some date else None)
              | None \<Rightarrow> None)
           in case second of
             Some date \<Rightarrow> Some date
           | None \<Rightarrow>
               (let isoDate = parseISO dateString
                in if isValid isoDate then Some isoDate else None)))"

subsection \<open>parseAmount\<close>

text \<open>
  A number is NaN, an infinity or a finite value. \<open>parseFloat\<close> is a parameter of the
  model.
\<close>

datatype jsnumber = NaN | PlusInfinity | MinusInfinity | Num real

definition number_truthy :: "jsnumber \<Rightarrow> bool" where
  "number_truthy n = (n \<noteq> NaN \<and> n \<noteq> Num 0)"

text \<open>\<open>s.replace(/<class>/g, '')\<close> for a class of single characters.\<close>

definition remove_all :: "bool \<Rightarrow> atom \<Rightarrow> jsstring \<Rightarrow> jsstring" where
  "remove_all ic a s = filter (\<lambda>c. \<not> atom_matches ic a c) s"

text \<open>\<open>s.replace(',', '.')\<close>: the first comma only.\<close>

fun replace_first_comma :: "jsstring \<Rightarrow> jsstring" where
  "replace_first_comma [] = []"
| "replace_first_comma (c # s) =
     (if c = ch CHR '','' then ch CHR ''.'' # s else c # replace_first_comma s)"

text \<open>\<open>/,\d{2}$/.test(s)\<close>\<close>

definition ends_with_comma_and_two_digits :: "jsstring \<Rightarrow> bool" where
  "ends_with_comma_and_two_digits s =
     (fst (RegExpBuiltinExec
        (regex_literal [once (Lit (ch CHR '','')), between (Cls [digit]) 2 2, Eol] False) s)
      \<noteq> None)"

definition parseAmount :: "(jsstring \<Rightarrow> jsnumber) \<Rightarrow> jsstring \<Rightarrow> jsnumber option" where
  "parseAmount parseFloat amountString =
     (if amountString = [] then None
      else
        (let cleaned =
               trim (remove_all True
                 (Cls [One (ch CHR ''$''), One (ch CHR ''k''), One (ch CHR ''r''), Space])
                 amountString);
             cleaned' =
               (if ends_with_comma_and_two_digits cleaned
                then replace_first_comma (remove_all False (Cls [Space]) cleaned)
                else remove_all False (Lit (ch CHR '','')) cleaned);
             amount = parseFloat cleaned'
         in if amount = NaN then None else Some amount))"

subsection \<open>receiptDataToExpense\<close>

record expense =
  e_amount :: jsnumber
  e_description :: jsstring
  e_category :: jsstring
  e_date :: jsdate
  e_from :: "jsstring option"
  e_to :: "jsstring option"
  e_transactionType :: "jsstring option"

text \<open>
  \<^verbatim>\<open>
  export function receiptDataToExpense(data: BankReceiptData) {
    const amount = data.amount ? parseAmount(data.amount) : null;
    const date = data.date ? parseDate(data.date) : null;
    return {
      amount: amount || 0,
      description: data.to || 'Unknown transaction',
      category: 'Other',
      date: date || new Date(),
      from: data.from,
      to: data.to,
      transactionType: data.transactionType,
    };
  }
  \<close>
  \<open>now\<close> is the value of \<open>new Date()\<close>.
\<close>

definition receiptDataToExpense ::
  "(jsstring \<Rightarrow> jsnumber) \<Rightarrow> (jsstring \<Rightarrow> jsdate) \<Rightarrow> jsdate \<Rightarrow> BankReceiptData \<Rightarrow> expense" where
  "receiptDataToExpense parseFloat parseISO now d =
     (let amount = (case r_amount d of None \<Rightarrow> None
                    | Some a \<Rightarrow> if a = [] then None else parseAmount parseFloat a);
          date = (case r_date d of None \<Rightarrow> None
                  | Some t \<Rightarrow> if t = [] then None else parseDate parseISO t)
      in \<lparr>e_amount = (case amount of None \<Rightarrow> Num 0
                       | Some n \<Rightarrow> if number_truthy n then n else Num 0),
          e_description = (case r_to d of None \<Rightarrow> js ''Unknown transaction''
                           | Some t \<Rightarrow> if t = [] then js ''Unknown transaction'' else t),
          e_category = js ''Other'',
          e_date = (case date of None \<Rightarrow> now | Some t \<Rightarrow> t),
          e_from = r_from d,
          e_to = r_to d,
          e_transactionType = r_transactionType d\<rparr>)"

subsection \<open>Sample inputs of the pipeline\<close>

text \<open>
  An environment in which every call succeeds but \<open>getContext\<close>, which returns \<open>null\<close>;
  one in which the rendering of the page fails; and a PDF file of 1024 bytes.
\<close>

definition env_no_context :: environment where
  "env_no_context =
     \<lparr>arrayBuffer_result = None, getDocument_result = None, getPage_result = None,
      createCanvas_result = None, getContext_result = Inr False, getViewport_result = None,
      render_result = None, destroy_result = None,
      toDataURL_result = Inr (js ''data:image/png;base64,''),
      createWorker_result = None, recognize_result = Inr (js ''TO: Bob LLC''),
      terminate_result = None, onProgress = None\<rparr>"

definition env_render_fails :: environment where
  "env_render_fails =
     env_no_context\<lparr>getContext_result := Inr True,
                     render_result := Some (Error (js ''Rendering cancelled''))\<rparr>"

definition pdf_file :: File where
  "pdf_file = \<lparr>file_type = js ''application/pdf'', file_size = 1024\<rparr>"

definition empty_file :: File where
  "empty_file = \<lparr>file_type = js ''application/pdf'', file_size = 0\<rparr>"

definition big_file :: File where
  "big_file = \<lparr>file_type = js ''image/png'', file_size = 10485761\<rparr>"

definition text_file :: File where
  "text_file = \<lparr>file_type = js ''text/plain'', file_size = 1024\<rparr>"

subsection \<open>Sample receipts for receiptDataToExpense\<close>

definition receipt_without_values :: BankReceiptData where
  "receipt_without_values =
     \<lparr>r_from = Some (js ''Alice Corp''), r_to = None, r_amount = None,
      r_transactionType = Some (js ''Card''), r_date = None\<rparr>"

definition receipt_unparseable :: BankReceiptData where
  "receipt_unparseable =
     \<lparr>r_from = None, r_to = Some (js ''Bob LLC''), r_amount = Some (js ''n/a''),
      r_transactionType = None, r_date = Some (js ''soon'')\<rparr>"

subsection \<open>Notions used in the properties\<close>

text \<open>An expression with neither the \<open>g\<close> nor the \<open>y\<close> flag.\<close>

definition plain :: "regexp \<Rightarrow> bool" where
  "plain R = (\<not> global R \<and> \<not> sticky R)"

text \<open>What a token can have consumed in a successful match.\<close>

fun seg_ok :: "bool \<Rightarrow> tok \<Rightarrow> jsstring \<Rightarrow> bool" where
  "seg_ok ic (Rep a lo hi) g =
     (lo \<le> length g \<and> (case hi of None \<Rightarrow> True | Some h \<Rightarrow> length g \<le> h) \<and>
      list_all (atom_matches ic a) g)"
| "seg_ok ic t g = (g = [])"

text \<open>The expression has no match that starts at one of the first \<open>n\<close> indices of \<open>s\<close>.\<close>

definition no_match_before :: "regexp \<Rightarrow> nat \<Rightarrow> jsstring \<Rightarrow> bool" where
  "no_match_before R n s =
     list_all (\<lambda>i. match_at (ignoreCase R) (toks R) i (drop i s) = None) [0..<n]"

text \<open>The pattern objects with \<open>lastIndex\<close> set to \<open>k\<close> in every one of them.\<close>

definition with_lastIndex :: "nat \<Rightarrow> receipt_patterns \<Rightarrow> receipt_patterns" where
  "with_lastIndex k P =
     \<lparr>from_rx = map (\<lambda>R. R\<lparr>lastIndex := k\<rparr>) (from_rx P),
      to_rx = map (\<lambda>R. R\<lparr>lastIndex := k\<rparr>) (to_rx P),
      amount_rx = map (\<lambda>R. R\<lparr>lastIndex := k\<rparr>) (amount_rx P),
      transactionType_rx = map (\<lambda>R. R\<lparr>lastIndex := k\<rparr>) (transactionType_rx P),
      date_rx = map (\<lambda>R. R\<lparr>lastIndex := k\<rparr>) (date_rx P)\<rparr>"

section \<open>Properties of the field extractor\<close>

subsection \<open>Evaluation on the sample transcriptions\<close>

lemmas regex_eval =
  js_def ch_def lits_def once_def one_or_more_def zero_or_more_def optional_def between_def
  LF_def match_at_def reach_def bt_rep.simps canonicalize_def is_space_def trim_def
  RegExpBuiltinExec_def regex_literal_def extractField_def truthy_def colon_or_space_def
  digit_def dash_or_slash_def labelled_def labelled_amount_def labelled_date_def
  amount_belopp_def amount_kr_suffix_def amount_generic_def date_iso_def date_bare_def

lemma en_from: "first_truthy receipt_en from_patterns = (Some (js ''Alice Corp''), from_patterns)"
  by (simp add: regex_eval receipt_en_def from_patterns_def)

lemma en_to: "first_truthy receipt_en to_patterns = (Some (js ''Bob LLC''), to_patterns)"
  by (simp add: regex_eval receipt_en_def to_patterns_def)

lemma en_amount: "first_truthy receipt_en amount_patterns = (Some (js ''42.50''), amount_patterns)"
  by (simp add: regex_eval receipt_en_def amount_patterns_def)

lemma en_transactionType:
  "first_truthy receipt_en transactionType_patterns = (None, transactionType_patterns)"
  by (simp add: regex_eval receipt_en_def transactionType_patterns_def)

lemma en_date: "first_truthy receipt_en date_patterns = (Some (js ''2025-03-14''), date_patterns)"
  by (simp add: regex_eval receipt_en_def date_patterns_def)

lemma en_parse:
  "parseBankReceiptText_on receipt_literals receipt_en =
     (\<lparr>r_from = Some (js ''Alice Corp''), r_to = Some (js ''Bob LLC''),
       r_amount = Some (js ''42.50''), r_transactionType = None,
       r_date = Some (js ''2025-03-14'')\<rparr>, receipt_literals)"
  by (simp add: parseBankReceiptText_on_def receipt_literals_def
      en_from en_to en_amount en_transactionType en_date)

text \<open>
  C1 as stated fails: on that transcription the amount is not \<open>$42.50\<close>.
\<close>

theorem parseBankReceiptText_english_receipt_amount_counterexample:
  "\<not> (r_from (parseBankReceiptText receipt_en) = Some (js ''Alice Corp'') \<and>
      r_to (parseBankReceiptText receipt_en) = Some (js ''Bob LLC'') \<and>
      r_amount (parseBankReceiptText receipt_en) = Some (js ''$42.50'') \<and>
      r_date (parseBankReceiptText receipt_en) = Some (js ''2025-03-14''))"
  by (simp add: parseBankReceiptText_def en_parse js_def ch_def)

lemma sv_parse:
  "parseBankReceiptText_on receipt_literals receipt_sv =
     (\<lparr>r_from = None, r_to = None, r_amount = Some (js ''123,45''),
       r_transactionType = None, r_date = None\<rparr>, receipt_literals)"
  by (simp add: regex_eval receipt_sv_def parseBankReceiptText_on_def receipt_literals_def
      from_patterns_def to_patterns_def amount_patterns_def transactionType_patterns_def
      date_patterns_def)

lemma sv_amount_by_pattern:
  "map (\<lambda>p. fst (extractField receipt_sv p)) amount_patterns =
     [None, None, Some (js ''123,45''), Some (js ''123,45''), None]"
  by (simp add: regex_eval receipt_sv_def amount_patterns_def)

text \<open>
  With the label spelled F, r, U+00E5, n the sender pattern finds the sender of the
  Swedish sample.
\<close>

lemma sv_from_with_intended_label:
  "fst (extractField receipt_sv (labelled (lits ''Fr'' @ [once (Lit 229)] @ lits ''n''))) =
     Some (js ''Handlaren AB'')"
  by (simp add: regex_eval receipt_sv_def)

text \<open>The pattern as the source spells it finds a sender after its own spelling.\<close>

lemma sv_from_with_source_spelling:
  "fst (extractField (js ''Fr'' @ [195, 165] @ js ''n: Handlaren AB'') (from_patterns ! 3)) =
     Some (js ''Handlaren AB'')"
  by (simp add: regex_eval from_patterns_def)

lemma whitespace_value_parse:
  "parseBankReceiptText_on receipt_literals (js ''Typ  '') =
     (\<lparr>r_from = None, r_to = None, r_amount = None, r_transactionType = Some [],
       r_date = None\<rparr>, receipt_literals)"
  by (simp add: regex_eval parseBankReceiptText_on_def receipt_literals_def
      from_patterns_def to_patterns_def amount_patterns_def transactionType_patterns_def
      date_patterns_def)

text \<open>
  C3. On the transcription \<^verbatim>\<open>"Fr?n: Handlaren AB\nBelopp: 123,45 kr"\<close> (with U+00E5 for
  \<open>?\<close>) the amount is \<open>123,45\<close>, found by the third pattern of the amount list (the
  \<open>Belopp\<close> label) before the currency-suffix pattern is tried; the sender is absent,
  because the fourth sender pattern of the source spells its label with the two
  characters U+00C3 U+00A5 where the Swedish word has the one character U+00E5.
\<close>

theorem parseBankReceiptText_swedish_receipt:
  "parseBankReceiptText receipt_sv =
     \<lparr>r_from = None, r_to = None, r_amount = Some (js ''123,45''),
      r_transactionType = None, r_date = None\<rparr>"
  by (simp add: parseBankReceiptText_def sv_parse)

subsection \<open>trim\<close>

lemma trim_sublist: "sublist (trim c) c"
proof -
  have "suffix (dropWhile is_space c) c"
    by (rule suffix_dropWhile)
  moreover have "prefix (trim c) (dropWhile is_space c)"
  proof -
    have "suffix (dropWhile is_space (rev (dropWhile is_space c))) (rev (dropWhile is_space c))"
      by (rule suffix_dropWhile)
    then show ?thesis
      unfolding trim_def by (simp add: suffix_to_prefix)
  qed
  ultimately show ?thesis
    by (meson prefix_imp_sublist suffix_imp_sublist sublist_order.order_trans)
qed

lemma trim_no_space_ends:
  assumes "trim s \<noteq> []"
  shows "\<not> is_space (hd (trim s))" and "\<not> is_space (last (trim s))"
proof -
  let ?t = "dropWhile is_space s"
  let ?u = "dropWhile is_space (rev ?t)"
  have u: "?u \<noteq> []" using assms by (simp add: trim_def)
  have t: "?t \<noteq> []"
    using u by (auto dest: set_dropWhileD)
  have "\<not> is_space (hd ?u)" using u by (rule hd_dropWhile)
  then show "\<not> is_space (last (trim s))"
    using u by (simp add: trim_def last_rev)
  have "\<not> is_space (hd ?t)" using t by (rule hd_dropWhile)
  then have "\<not> is_space (last (rev ?t))" using t by (simp add: last_rev)
  moreover have "last ?u = last (rev ?t)"
    using u by (metis last_appendR takeWhile_dropWhile_id)
  ultimately show "\<not> is_space (hd (trim s))"
    using u by (simp add: trim_def hd_rev)
qed

lemma trim_fixed: "s = [] \<or> (\<not> is_space (hd s) \<and> \<not> is_space (last s)) \<Longrightarrow> trim s = s"
proof (cases "s = []")
  case True
  then show ?thesis by (simp add: trim_def)
next
  case False
  assume "s = [] \<or> (\<not> is_space (hd s) \<and> \<not> is_space (last s))"
  with False have h: "\<not> is_space (hd s)" and l: "\<not> is_space (last s)" by auto
  have "dropWhile is_space s = s" using h False by (simp add: dropWhile_eq_self_iff)
  moreover have "dropWhile is_space (rev s) = rev s"
    using l False by (simp add: dropWhile_eq_self_iff hd_rev)
  ultimately show ?thesis by (simp add: trim_def)
qed

lemma trim_idem: "trim (trim s) = trim s"
  using trim_no_space_ends [of s] by (intro trim_fixed) blast

lemma trim_nonempty: "c \<in> set s \<Longrightarrow> \<not> is_space c \<Longrightarrow> trim s \<noteq> []"
proof -
  assume c: "c \<in> set s" and n: "\<not> is_space c"
  have 1: "dropWhile is_space s \<noteq> []" using c n by (auto simp: dropWhile_eq_Nil_conv)
  then have "\<not> is_space (hd (dropWhile is_space s))" by (rule hd_dropWhile)
  then have "\<exists>x \<in> set (rev (dropWhile is_space s)). \<not> is_space x"
    using 1 by (metis hd_in_set set_rev)
  then have "dropWhile is_space (rev (dropWhile is_space s)) \<noteq> []"
    by (auto simp: dropWhile_eq_Nil_conv)
  then show ?thesis by (simp add: trim_def)
qed


subsection \<open>Expressions without the global and sticky flags keep no state\<close>

lemma RegExpBuiltinExec_plain:
  "\<not> global R \<Longrightarrow> \<not> sticky R \<Longrightarrow>
   RegExpBuiltinExec R S = (map_option snd (search (ignoreCase R) (toks R) 0 S), R)"
  by (simp add: RegExpBuiltinExec_def split: option.splits)

lemma extractField_plain: "plain R \<Longrightarrow> snd (extractField tx R) = R"
  by (simp add: extractField_def plain_def RegExpBuiltinExec_plain split: option.splits list.splits prod.splits)

lemma extractField_lastIndex:
  "plain R \<Longrightarrow> fst (extractField tx (R\<lparr>lastIndex := k\<rparr>)) = fst (extractField tx R)"
  by (simp add: extractField_def plain_def RegExpBuiltinExec_plain split: option.splits list.splits prod.splits)

lemma first_truthy_plain: "list_all plain ps \<Longrightarrow> snd (first_truthy tx ps) = ps"
proof (induction tx ps rule: first_truthy.induct)
  case (1 tx)
  then show ?case by simp
next
  case (2 tx p)
  then show ?case
    using extractField_plain [of p tx] by (auto split: prod.splits)
next
  case (3 tx p q qs)
  then show ?case
    using extractField_plain [of p tx] by (auto split: prod.splits)
qed

lemma first_truthy_lastIndex:
  "list_all plain ps \<Longrightarrow>
   fst (first_truthy tx (map (\<lambda>R. R\<lparr>lastIndex := k\<rparr>) ps)) = fst (first_truthy tx ps)"
proof (induction tx ps rule: first_truthy.induct)
  case (1 tx)
  then show ?case by simp
next
  case (2 tx p)
  then show ?case
    using extractField_lastIndex [of p tx k] by (auto split: prod.splits)
next
  case (3 tx p q qs)
  then show ?case
    using extractField_lastIndex [of p tx k] by (auto split: prod.splits)
qed

lemma plain_patterns:
  "list_all plain from_patterns" "list_all plain to_patterns" "list_all plain amount_patterns"
  "list_all plain transactionType_patterns" "list_all plain date_patterns"
  by (simp_all add: plain_def from_patterns_def to_patterns_def amount_patterns_def
      transactionType_patterns_def date_patterns_def labelled_def labelled_amount_def
      labelled_date_def regex_literal_def amount_belopp_def amount_kr_suffix_def
      amount_generic_def date_iso_def date_bare_def)

subsection \<open>The matcher consumes a prefix of its input\<close>

lemma bt_prefix:
  "bt ic ts pos s = Some segs \<Longrightarrow> prefix (concat segs) s"
  "bt_rep ic ts pos s lo n = Some segs \<Longrightarrow> prefix (concat segs) s"
proof (induction ic ts pos s and ic ts pos s lo n arbitrary: segs and segs rule: bt_bt_rep.induct)
  case (7 ic ts pos s lo n)
  from "7.prems" have nlo: "\<not> n < lo"
    by (subst (asm) bt_rep.simps) (simp split: if_splits)
  show ?case
  proof (cases "bt ic ts (pos + n) (drop n s)")
    case (Some segs')
    with "7.prems" nlo have segs: "segs = take n s # segs'"
      by (subst (asm) bt_rep.simps) simp
    from "7.IH"(1) [OF nlo Some] obtain r where "drop n s = concat segs' @ r"
      by (auto simp: prefix_def)
    then have "take n s @ drop n s = concat segs @ r"
      using segs by simp
    then show ?thesis by (simp add: prefix_def)
  next
    case None
    with "7.prems" nlo have n0: "n \<noteq> 0" and rec: "bt_rep ic ts pos s lo (n - 1) = Some segs"
      by (subst (asm) bt_rep.simps, simp split: if_splits)+
    from "7.IH"(2) [OF nlo None n0 rec] show ?thesis .
  qed
qed (auto split: if_splits)

lemma reach_le: "reach ic a hi s \<le> length (takeWhile (atom_matches ic a) s)"
  by (simp add: reach_def Let_def split: option.splits)

lemma take_takeWhile_all:
  "n \<le> length (takeWhile P s) \<Longrightarrow> list_all P (take n s)"
proof (induction s arbitrary: n)
  case Nil
  then show ?case by simp
next
  case (Cons x xs)
  then show ?case by (cases n) (auto split: if_splits)
qed

lemma bt_segs:
  "bt ic ts pos s = Some segs \<Longrightarrow> list_all2 (seg_ok ic) ts segs"
  "bt_rep ic ts pos s lo n = Some segs \<Longrightarrow>
     \<exists>k gs. segs = take k s # gs \<and> lo \<le> k \<and> k \<le> n \<and> list_all2 (seg_ok ic) ts gs"
proof (induction ic ts pos s and ic ts pos s lo n arbitrary: segs and segs rule: bt_bt_rep.induct)
  case (2 ic a lo hi ts pos s)
  from "2.prems" have "bt_rep ic ts pos s lo (reach ic a hi s) = Some segs" by simp
  from "2.IH" [OF this] obtain k gs where
    segs: "segs = take k s # gs" and lo: "lo \<le> k" and k: "k \<le> reach ic a hi s"
    and gs: "list_all2 (seg_ok ic) ts gs" by blast
  from k reach_le [of ic a hi s] have kl: "k \<le> length (takeWhile (atom_matches ic a) s)" by simp
  then have "list_all (atom_matches ic a) (take k s)" by (rule take_takeWhile_all)
  moreover have "k \<le> length s"
    using kl length_takeWhile_le [of "atom_matches ic a" s] by simp
  moreover have "case hi of None \<Rightarrow> True | Some h \<Rightarrow> k \<le> h"
    using k by (simp add: reach_def Let_def split: option.splits)
  ultimately show ?case using segs lo gs by (simp split: option.splits)
next
  case (7 ic ts pos s lo n)
  from "7.prems" have nlo: "\<not> n < lo"
    by (subst (asm) bt_rep.simps) (simp split: if_splits)
  show ?case
  proof (cases "bt ic ts (pos + n) (drop n s)")
    case (Some segs')
    with "7.prems" nlo have segs: "segs = take n s # segs'"
      by (subst (asm) bt_rep.simps) simp
    from "7.IH"(1) [OF nlo Some] have "list_all2 (seg_ok ic) ts segs'" .
    with segs nlo show ?thesis by auto
  next
    case None
    with "7.prems" nlo have n0: "n \<noteq> 0" and rec: "bt_rep ic ts pos s lo (n - 1) = Some segs"
      by (subst (asm) bt_rep.simps, simp split: if_splits)+
    from "7.IH"(2) [OF nlo None n0 rec] obtain k gs where
      "segs = take k s # gs" "lo \<le> k" "k \<le> n - 1" "list_all2 (seg_ok ic) ts gs" by blast
    then show ?thesis by (intro exI [of _ k] exI [of _ gs]) auto
  qed
qed (auto split: if_splits)

subsection \<open>Captures are parts of the matched text\<close>

lemma sublist_app_left: "sublist c ys \<Longrightarrow> sublist c (xs @ ys)"
  unfolding sublist_def by (metis append.assoc)

lemma sublist_app_right: "sublist c xs \<Longrightarrow> sublist c (xs @ ys)"
  unfolding sublist_def by (metis append.assoc)

lemma caps_sublist:
  "c \<in> set (caps ts segs acc) \<Longrightarrow>
   sublist c ((case acc of None \<Rightarrow> [] | Some a \<Rightarrow> a) @ concat segs)"
proof (induction ts segs acc rule: caps.induct)
  case (1 ts g gs acc)
  then have "sublist c (concat gs)" by simp
  then have "sublist c (g @ concat gs)" by (rule sublist_app_left)
  then show ?case by (simp add: sublist_app_left)
next
  case (2 ts g gs acc)
  show ?case
  proof (cases acc)
    case None
    with 2 have "sublist c (concat gs)" by simp
    then have "sublist c (g @ concat gs)" by (rule sublist_app_left)
    then show ?thesis using None by simp
  next
    case (Some a)
    with "2.prems" have "c = a \<or> c \<in> set (caps ts gs None)" by simp
    then show ?thesis
    proof
      assume "c = a"
      then show ?thesis using Some by simp
    next
      assume "c \<in> set (caps ts gs None)"
      with "2.IH"(2) [OF Some] have "sublist c (concat gs)" by simp
      then have "sublist c (g @ concat gs)" by (rule sublist_app_left)
      then show ?thesis using Some by (simp add: sublist_app_left)
    qed
  qed
qed (auto simp: sublist_app_left split: option.splits)

lemma match_at_Some:
  "match_at ic ts i s = Some (m, cs) \<Longrightarrow>
   \<exists>segs. bt ic ts i s = Some segs \<and> m = concat segs \<and> cs = caps ts segs None"
  by (auto simp: match_at_def)

lemma search_Some:
  "search ic ts pos s = Some (i, m, cs) \<Longrightarrow>
   \<exists>s'. suffix s' s \<and> match_at ic ts i s' = Some (m, cs)"
proof (induction s arbitrary: pos)
  case Nil
  then show ?case by auto
next
  case (Cons c s)
  show ?case
  proof (cases "match_at ic ts pos (c # s)")
    case None
    with Cons.prems have "search ic ts (Suc pos) s = Some (i, m, cs)" by simp
    from Cons.IH [OF this] obtain s' where "suffix s' s" "match_at ic ts i s' = Some (m, cs)"
      by blast
    then show ?thesis by (auto simp: suffix_Cons)
  next
    case (Some arr)
    with Cons.prems have "i = pos" "arr = (m, cs)" by simp_all
    with Some show ?thesis by (intro exI [of _ "c # s"]) simp
  qed
qed

lemma extractField_Some:
  assumes "plain R" and "fst (extractField tx R) = Some v"
  shows "\<exists>i s' segs c cs. suffix s' tx \<and> bt (ignoreCase R) (toks R) i s' = Some segs \<and>
           caps (toks R) segs None = c # cs \<and> v = trim c"
proof -
  from assms obtain i m c cs where
    s: "search (ignoreCase R) (toks R) 0 tx = Some (i, m, c # cs)" and v: "v = trim c"
    by (auto simp: extractField_def plain_def RegExpBuiltinExec_plain
        split: option.splits list.splits prod.splits)
  from search_Some [OF s] obtain s' where
    s': "suffix s' tx" and "match_at (ignoreCase R) (toks R) i s' = Some (m, c # cs)" by blast
  from match_at_Some [OF this(2)] obtain segs where
    "bt (ignoreCase R) (toks R) i s' = Some segs" "c # cs = caps (toks R) segs None" by blast
  with s' v show ?thesis by metis
qed

lemma extractField_trimmed_substring:
  assumes "plain R" and "fst (extractField tx R) = Some v"
  shows "trim v = v \<and> sublist v tx"
proof -
  from extractField_Some [OF assms] obtain i s' segs c cs where
    s': "suffix s' tx" and bt: "bt (ignoreCase R) (toks R) i s' = Some segs"
    and c: "caps (toks R) segs None = c # cs" and v: "v = trim c" by blast
  have "c \<in> set (caps (toks R) segs None)" using c by simp
  from caps_sublist [OF this] have "sublist c (concat segs)" by simp
  moreover have "sublist (concat segs) s'" using bt_prefix(1) [OF bt] by simp
  moreover have "sublist s' tx" using s' by simp
  moreover have "sublist v c" using v trim_sublist by simp
  ultimately have "sublist v tx"
    by (meson sublist_order.order_trans)
  then show ?thesis using v by (simp add: trim_idem)
qed

text \<open>
  The chain stops at the first pattern with a truthy value; a pattern without one hands
  over to the rest of the chain.
\<close>

lemma first_truthy_short_circuit:
  "truthy (fst (extractField tx p)) \<Longrightarrow>
   fst (first_truthy tx (p # ps)) = fst (extractField tx p)"
  by (cases ps; cases "extractField tx p") simp_all

lemma first_truthy_next:
  "\<not> truthy (fst (extractField tx p)) \<Longrightarrow>
   fst (first_truthy tx (p # q # qs)) = fst (first_truthy tx (q # qs))"
  by (cases "extractField tx p"; cases "first_truthy tx (q # qs)") simp

lemma first_truthy_Some:
  "fst (first_truthy tx ps) = Some v \<Longrightarrow> \<exists>p \<in> set ps. fst (extractField tx p) = Some v"
proof (induction tx ps rule: first_truthy.induct)
  case (1 tx)
  then show ?case by simp
next
  case (2 tx p)
  then show ?case by (auto split: prod.splits)
next
  case (3 tx p q qs)
  then show ?case by (auto split: prod.splits if_splits)
qed

lemma first_truthy_empty:
  "fst (first_truthy tx ps) = Some [] \<Longrightarrow> ps \<noteq> [] \<and> fst (extractField tx (last ps)) = Some []"
proof (induction tx ps rule: first_truthy.induct)
  case (1 tx)
  then show ?case by simp
next
  case (2 tx p)
  then show ?case by (auto split: prod.splits)
next
  case (3 tx p q qs)
  then show ?case by (auto simp: truthy_def split: prod.splits if_splits)
qed

lemma first_truthy_trimmed_substring:
  assumes "list_all plain ps" and "fst (first_truthy tx ps) = Some v"
  shows "trim v = v \<and> sublist v tx"
proof -
  from first_truthy_Some [OF assms(2)] obtain p where
    "p \<in> set ps" "fst (extractField tx p) = Some v" by blast
  moreover from this(1) assms(1) have "plain p" by (simp add: list_all_iff)
  ultimately show ?thesis using extractField_trimmed_substring by blast
qed

lemma amount_last_nonempty:
  assumes "fst (extractField tx (last amount_patterns)) = Some v"
  shows "v \<noteq> []"
proof -
  let ?R = "last amount_patterns"
  have p: "plain ?R" by (simp add: amount_patterns_def amount_generic_def plain_def regex_literal_def)
  from extractField_Some [OF p assms] obtain i s' segs c cs where
     bt: "bt (ignoreCase ?R) (toks ?R) i s' = Some segs"
    and c: "caps (toks ?R) segs None = c # cs" and v: "v = trim c" by blast
  from bt_segs(1) [OF bt] have "list_all2 (seg_ok (ignoreCase ?R)) (toks ?R) segs" .
  then obtain g1 g2 g3 g4 g5 g6 g7 where
    segs: "segs = [g1, g2, g3, g4, g5, g6, g7]" and g5: "1 \<le> length g5"
    "list_all (atom_matches False (Lit (ch CHR ''.''))) g5"
    by (auto simp: amount_patterns_def amount_generic_def regex_literal_def list_all2_Cons1 optional_def
        zero_or_more_def one_or_more_def once_def between_def)
  from c segs have cc: "c = g4 @ g5 @ g6"
    by (simp add: amount_patterns_def amount_generic_def regex_literal_def optional_def
        zero_or_more_def one_or_more_def once_def between_def)
  from g5 have "ch CHR ''.'' \<in> set g5" by (cases g5) auto
  then have "ch CHR ''.'' \<in> set c" using cc by simp
  moreover have "\<not> is_space (ch CHR ''.'')" by (simp add: is_space_def ch_def)
  ultimately have "trim c \<noteq> []" by (rule trim_nonempty)
  then show ?thesis using v by simp
qed

lemma date_last_nonempty:
  assumes "fst (extractField tx (last date_patterns)) = Some v"
  shows "v \<noteq> []"
proof -
  let ?R = "last date_patterns"
  have p: "plain ?R" by (simp add: date_patterns_def date_bare_def plain_def regex_literal_def)
  from extractField_Some [OF p assms] obtain i s' segs c cs where
     bt: "bt (ignoreCase ?R) (toks ?R) i s' = Some segs"
    and c: "caps (toks ?R) segs None = c # cs" and v: "v = trim c" by blast
  from bt_segs(1) [OF bt] have "list_all2 (seg_ok (ignoreCase ?R)) (toks ?R) segs" .
  then obtain g1 g2 g3 g4 g5 g6 g7 where
    segs: "segs = [g1, g2, g3, g4, g5, g6, g7]" and g3: "1 \<le> length g3"
    "list_all (atom_matches False dash_or_slash) g3"
    by (auto simp: date_patterns_def date_bare_def regex_literal_def list_all2_Cons1 once_def between_def)
  from c segs have cc: "c = g2 @ g3 @ g4 @ g5 @ g6"
    by (simp add: date_patterns_def date_bare_def regex_literal_def once_def between_def)
  from g3 obtain x where "x \<in> set g3" "x = ch CHR ''-'' \<or> x = ch CHR ''/''"
    by (cases g3) (auto simp: dash_or_slash_def)
  then have "x \<in> set c" "\<not> is_space x" using cc by (auto simp: is_space_def ch_def)
  then have "trim c \<noteq> []" by (rule trim_nonempty)
  then show ?thesis using v by simp
qed

lemma parse_fields:
  "r_from (parseBankReceiptText tx) = fst (first_truthy tx from_patterns)"
  "r_to (parseBankReceiptText tx) = fst (first_truthy tx to_patterns)"
  "r_amount (parseBankReceiptText tx) = fst (first_truthy tx amount_patterns)"
  "r_transactionType (parseBankReceiptText tx) = fst (first_truthy tx transactionType_patterns)"
  "r_date (parseBankReceiptText tx) = fst (first_truthy tx date_patterns)"
  by (simp_all add: parseBankReceiptText_def parseBankReceiptText_on_def receipt_literals_def
      split: prod.splits)


text \<open>
  C2 (as amended). For every transcription, every field of the result that is present is
  equal to its own trim and is a contiguous part of the transcription; an amount and a
  date that are present are not empty.
\<close>

theorem parseBankReceiptText_fields_trimmed_substrings:
  "(r_from (parseBankReceiptText tx) = Some v \<or> r_to (parseBankReceiptText tx) = Some v \<or>
    r_amount (parseBankReceiptText tx) = Some v \<or>
    r_transactionType (parseBankReceiptText tx) = Some v \<or>
    r_date (parseBankReceiptText tx) = Some v \<longrightarrow> trim v = v \<and> sublist v tx) \<and>
   (r_amount (parseBankReceiptText tx) = Some v \<or> r_date (parseBankReceiptText tx) = Some v
      \<longrightarrow> v \<noteq> [])"
proof -
  have 1: "trim v = v \<and> sublist v tx"
    if "fst (first_truthy tx from_patterns) = Some v \<or> fst (first_truthy tx to_patterns) = Some v \<or>
        fst (first_truthy tx amount_patterns) = Some v \<or>
        fst (first_truthy tx transactionType_patterns) = Some v \<or>
        fst (first_truthy tx date_patterns) = Some v"
    using that first_truthy_trimmed_substring plain_patterns by blast
  have 2: "v \<noteq> []" if "fst (first_truthy tx amount_patterns) = Some v"
    using that first_truthy_empty amount_last_nonempty by blast
  have 3: "v \<noteq> []" if "fst (first_truthy tx date_patterns) = Some v"
    using that first_truthy_empty date_last_nonempty by blast
  show ?thesis
    unfolding parse_fields using 1 2 3 by blast
qed

theorem parseBankReceiptText_fields_trimmed_substrings_witness:
  "r_amount (parseBankReceiptText receipt_en) = Some (js ''42.50'') \<and>
   trim (js ''42.50'') = js ''42.50'' \<and> sublist (js ''42.50'') receipt_en \<and>
   js ''42.50'' \<noteq> []"
  using parseBankReceiptText_fields_trimmed_substrings [of receipt_en "js ''42.50''"]
  by (simp add: parseBankReceiptText_def en_parse)

text \<open>
  C2 as stated fails: a field can be present and empty. On the transcription
  \<^verbatim>\<open>"Typ  "\<close> the last transaction type pattern captures one space, and the field is
  the empty string.
\<close>

theorem parseBankReceiptText_empty_field_counterexample:
  "r_transactionType (parseBankReceiptText (js ''Typ  '')) = Some []"
  by (simp add: parseBankReceiptText_def whitespace_value_parse)

subsection \<open>The English sample inside a longer transcription\<close>

lemma search_skip:
  "\<forall>i<n. match_at ic ts (pos + i) (drop i s) = None \<Longrightarrow> n \<le> length s \<Longrightarrow>
   search ic ts pos s = search ic ts (pos + n) (drop n s)"
proof (induction n arbitrary: pos s)
  case 0
  then show ?case by simp
next
  case (Suc n)
  from Suc.prems(2) obtain c s' where s: "s = c # s'" by (cases s) auto
  from Suc.prems(1) have "match_at ic ts pos s = None" by force
  then have 1: "search ic ts pos s = search ic ts (Suc pos) s'" by (simp add: s)
  have "\<forall>i<n. match_at ic ts (Suc pos + i) (drop i s') = None"
  proof (intro allI impI)
    fix i assume "i < n"
    then have "match_at ic ts (pos + Suc i) (drop (Suc i) s) = None"
      using Suc.prems(1) by (meson Suc_less_eq)
    then show "match_at ic ts (Suc pos + i) (drop i s') = None" by (simp add: s)
  qed
  moreover have "n \<le> length s'" using Suc.prems(2) s by simp
  ultimately have "search ic ts (Suc pos) s' = search ic ts (Suc pos + n) (drop n s')"
    by (rule Suc.IH)
  with 1 show ?case by (simp add: s)
qed

lemma extractField_after_prefix:
  assumes "plain R" and "no_match_before R (length pre) (pre @ s)"
  shows "extractField (pre @ s) R =
     ((case search (ignoreCase R) (toks R) (length pre) s of
         None \<Rightarrow> None
       | Some (i, m, cs) \<Rightarrow> (case cs of [] \<Rightarrow> None | c # _ \<Rightarrow> Some (trim c))), R)"
proof -
  have "search (ignoreCase R) (toks R) 0 (pre @ s) =
        search (ignoreCase R) (toks R) (0 + length pre) (drop (length pre) (pre @ s))"
    using assms(2) by (intro search_skip) (auto simp: no_match_before_def list_all_iff)
  then show ?thesis
    using assms(1)
    by (auto simp: extractField_def plain_def RegExpBuiltinExec_plain split: option.splits)
qed

lemma gen_from:
  assumes "no_match_before (labelled (lits ''FROM'')) (length pre) (pre @ receipt_en @ post)"
  shows "first_truthy (pre @ receipt_en @ post) from_patterns = (Some (js ''Alice Corp''), from_patterns)"
proof -
  have p: "plain (labelled (lits ''FROM''))" by (simp add: plain_def labelled_def regex_literal_def)
  show ?thesis
    unfolding from_patterns_def first_truthy.simps extractField_after_prefix [OF p assms]
    by (simp add: regex_eval receipt_en_def)
qed

lemma gen_to:
  assumes "no_match_before (labelled (lits ''TO'')) (length pre) (pre @ receipt_en @ post)"
  shows "first_truthy (pre @ receipt_en @ post) to_patterns = (Some (js ''Bob LLC''), to_patterns)"
proof -
  have p: "plain (labelled (lits ''TO''))" by (simp add: plain_def labelled_def regex_literal_def)
  show ?thesis
    unfolding to_patterns_def first_truthy.simps extractField_after_prefix [OF p assms]
    by (simp add: regex_eval receipt_en_def)
qed

lemma gen_amount:
  assumes "no_match_before (labelled_amount (lits ''AMOUNT'')) (length pre) (pre @ receipt_en @ post)"
  shows "first_truthy (pre @ receipt_en @ post) amount_patterns = (Some (js ''42.50''), amount_patterns)"
proof -
  have p: "plain (labelled_amount (lits ''AMOUNT''))"
    by (simp add: plain_def labelled_amount_def regex_literal_def)
  show ?thesis
    unfolding amount_patterns_def first_truthy.simps extractField_after_prefix [OF p assms]
    by (simp add: regex_eval receipt_en_def)
qed

lemma first_truthy_skip:
  "fst (extractField tx p) = None \<Longrightarrow> plain p \<Longrightarrow>
   first_truthy tx (p # q # qs) = (case first_truthy tx (q # qs) of (w, ps') \<Rightarrow> (w, p # ps'))"
  using extractField_plain [of p tx]
  by (cases "extractField tx p") (simp add: truthy_def)

lemma gen_date:
  assumes "fst (extractField (pre @ receipt_en @ post) (labelled_date (lits ''DATE''))) = None"
    and "fst (extractField (pre @ receipt_en @ post) (labelled_date (lits ''Transaction Date''))) = None"
    and "fst (extractField (pre @ receipt_en @ post) (labelled_date (lits ''Datum''))) = None"
    and "no_match_before date_iso (length pre) (pre @ receipt_en @ post)"
  shows "first_truthy (pre @ receipt_en @ post) date_patterns = (Some (js ''2025-03-14''), date_patterns)"
proof -
  have p: "plain (labelled_date l)" for l
    by (simp add: plain_def labelled_date_def regex_literal_def)
  have q: "plain date_iso" by (simp add: plain_def date_iso_def regex_literal_def)
  have "first_truthy (pre @ receipt_en @ post) [date_iso, date_bare] =
          (Some (js ''2025-03-14''), [date_iso, date_bare])"
    unfolding first_truthy.simps extractField_after_prefix [OF q assms(4)]
    by (simp add: regex_eval receipt_en_def)
  then show ?thesis
    unfolding date_patterns_def
    by (simp only: first_truthy_skip [OF assms(1) p] first_truthy_skip [OF assms(2) p]
        first_truthy_skip [OF assms(3) p] prod.case)
qed

text \<open>
  C1 (as amended). For every transcription that contains the text
  \<^verbatim>\<open>"FROM: Alice Corp\nTO: Bob LLC\nAMOUNT: $42.50\nDATE: 2025-03-14"\<close>, in which no match
  of the \<open>FROM\<close>, \<open>TO\<close>, \<open>AMOUNT\<close> and ISO date patterns starts before that text and
  which none of the three labelled date patterns matches, parseBankReceiptText returns
  the sender \<open>Alice Corp\<close>, the recipient \<open>Bob LLC\<close>, the amount \<open>42.50\<close> and the date
  \<open>2025-03-14\<close>. The currency symbol is not part of the amount: the pattern consumes it
  before the capture group opens.
\<close>

theorem parseBankReceiptText_english_receipt:
  assumes "no_match_before (labelled (lits ''FROM'')) (length pre) (pre @ receipt_en @ post)"
    and "no_match_before (labelled (lits ''TO'')) (length pre) (pre @ receipt_en @ post)"
    and "no_match_before (labelled_amount (lits ''AMOUNT'')) (length pre) (pre @ receipt_en @ post)"
    and "no_match_before date_iso (length pre) (pre @ receipt_en @ post)"
    and "fst (extractField (pre @ receipt_en @ post) (labelled_date (lits ''DATE''))) = None"
    and "fst (extractField (pre @ receipt_en @ post) (labelled_date (lits ''Transaction Date''))) = None"
    and "fst (extractField (pre @ receipt_en @ post) (labelled_date (lits ''Datum''))) = None"
  shows "r_from (parseBankReceiptText (pre @ receipt_en @ post)) = Some (js ''Alice Corp'') \<and>
         r_to (parseBankReceiptText (pre @ receipt_en @ post)) = Some (js ''Bob LLC'') \<and>
         r_amount (parseBankReceiptText (pre @ receipt_en @ post)) = Some (js ''42.50'') \<and>
         r_date (parseBankReceiptText (pre @ receipt_en @ post)) = Some (js ''2025-03-14'')"
  using gen_from [OF assms(1)] gen_to [OF assms(2)] gen_amount [OF assms(3)]
    gen_date [OF assms(5,6,7,4)]
  by (simp add: parse_fields)

text \<open>
  The theorem at the transcription \<^verbatim>\<open>"Receipt\n"\<close>, the sample, \<^verbatim>\<open>"\nThank you"\<close>, and
  at the sample alone.
\<close>

lemma framed_no_match:
  "no_match_before (labelled (lits ''FROM'')) (length (js ''Receipt'' @ [LF]))
     ((js ''Receipt'' @ [LF]) @ receipt_en @ ([LF] @ js ''Thank you''))"
  "no_match_before (labelled (lits ''TO'')) (length (js ''Receipt'' @ [LF]))
     ((js ''Receipt'' @ [LF]) @ receipt_en @ ([LF] @ js ''Thank you''))"
  "no_match_before (labelled_amount (lits ''AMOUNT'')) (length (js ''Receipt'' @ [LF]))
     ((js ''Receipt'' @ [LF]) @ receipt_en @ ([LF] @ js ''Thank you''))"
  "no_match_before date_iso (length (js ''Receipt'' @ [LF]))
     ((js ''Receipt'' @ [LF]) @ receipt_en @ ([LF] @ js ''Thank you''))"
  by (simp_all add: no_match_before_def regex_eval receipt_en_def upt_rec)

lemma framed_no_labelled_date:
  "fst (extractField ((js ''Receipt'' @ [LF]) @ receipt_en @ ([LF] @ js ''Thank you''))
     (labelled_date (lits ''DATE''))) = None"
  "fst (extractField ((js ''Receipt'' @ [LF]) @ receipt_en @ ([LF] @ js ''Thank you''))
     (labelled_date (lits ''Transaction Date''))) = None"
  "fst (extractField ((js ''Receipt'' @ [LF]) @ receipt_en @ ([LF] @ js ''Thank you''))
     (labelled_date (lits ''Datum''))) = None"
  by (simp_all add: regex_eval receipt_en_def)

lemma en_no_labelled_date:
  "fst (extractField receipt_en (labelled_date (lits ''DATE''))) = None"
  "fst (extractField receipt_en (labelled_date (lits ''Transaction Date''))) = None"
  "fst (extractField receipt_en (labelled_date (lits ''Datum''))) = None"
  by (simp_all add: regex_eval receipt_en_def)

theorem parseBankReceiptText_english_receipt_witness:
  "r_from (parseBankReceiptText ((js ''Receipt'' @ [LF]) @ receipt_en @ ([LF] @ js ''Thank you'')))
     = Some (js ''Alice Corp'') \<and>
   r_to (parseBankReceiptText ((js ''Receipt'' @ [LF]) @ receipt_en @ ([LF] @ js ''Thank you'')))
     = Some (js ''Bob LLC'') \<and>
   r_amount (parseBankReceiptText ((js ''Receipt'' @ [LF]) @ receipt_en @ ([LF] @ js ''Thank you'')))
     = Some (js ''42.50'') \<and>
   r_date (parseBankReceiptText ((js ''Receipt'' @ [LF]) @ receipt_en @ ([LF] @ js ''Thank you'')))
     = Some (js ''2025-03-14'') \<and>
   r_from (parseBankReceiptText receipt_en) = Some (js ''Alice Corp'') \<and>
   r_to (parseBankReceiptText receipt_en) = Some (js ''Bob LLC'') \<and>
   r_amount (parseBankReceiptText receipt_en) = Some (js ''42.50'') \<and>
   r_date (parseBankReceiptText receipt_en) = Some (js ''2025-03-14'')"
proof -
  have e: "no_match_before R (length ([] :: jsstring)) s" for R s
    by (simp add: no_match_before_def)
  show ?thesis
    using parseBankReceiptText_english_receipt [OF framed_no_match framed_no_labelled_date]
      parseBankReceiptText_english_receipt [of "[]" "[]", OF e e e e]
      en_no_labelled_date
    by simp
qed

subsection \<open>Determinism\<close>

lemma parseBankReceiptText_on_plain:
  assumes "list_all plain (from_rx P)" "list_all plain (to_rx P)" "list_all plain (amount_rx P)"
    "list_all plain (transactionType_rx P)" "list_all plain (date_rx P)"
  shows "snd (parseBankReceiptText_on P tx) = P"
  using assms [THEN first_truthy_plain, of tx]
  by (auto simp: parseBankReceiptText_on_def split: prod.splits)

lemma parseBankReceiptText_on_lastIndex:
  "fst (parseBankReceiptText_on (with_lastIndex k receipt_literals) tx) =
   fst (parseBankReceiptText_on receipt_literals tx)"
  using plain_patterns [THEN first_truthy_lastIndex, of tx k]
  by (auto simp: parseBankReceiptText_on_def with_lastIndex_def receipt_literals_def
      split: prod.splits)

text \<open>
  C8. parseBankReceiptText is deterministic. An invocation leaves every pattern object
  as it found it, so a second invocation, even one made on the very objects the first
  has used, returns the value of the first; and the value does not depend on the
  \<open>lastIndex\<close> the pattern objects hold.
\<close>

theorem parseBankReceiptText_deterministic:
  "snd (parseBankReceiptText_on receipt_literals tx) = receipt_literals \<and>
   fst (parseBankReceiptText_on (snd (parseBankReceiptText_on receipt_literals tx)) tx) =
     parseBankReceiptText tx \<and>
   fst (parseBankReceiptText_on (with_lastIndex k receipt_literals) tx) =
     parseBankReceiptText tx"
proof -
  have "snd (parseBankReceiptText_on receipt_literals tx) = receipt_literals"
    by (rule parseBankReceiptText_on_plain) (simp_all add: receipt_literals_def plain_patterns)
  then show ?thesis
    by (simp add: parseBankReceiptText_def parseBankReceiptText_on_lastIndex)
qed

section \<open>Properties of the pipeline\<close>

lemmas io_defs = io_return_def throw_def io_bind_def call_def unit_outcome_def try_finally_def
  try_catch_def progress_def

lemma str_includes_pdf: "str_includes (js ''application/pdf'') (js ''pdf'')"
  by (simp add: js_def ch_def)

subsection \<open>Evaluation on the sample inputs\<close>

lemma no_context_pdfToImageDataURL:
  "pdfToImageDataURL env_no_context pdf_file [] =
     (Inl (Error (js ''Failed to get canvas context'')),
      [ArrayBuffer, GetDocument, GetPage, CreateCanvas, GetContext])"
  by (simp add: pdfToImageDataURL_def env_no_context_def io_defs)

lemma render_fails_pdfToImageDataURL:
  "pdfToImageDataURL env_render_fails pdf_file [] =
     (Inl (Error (js ''Rendering cancelled'')),
      [ArrayBuffer, GetDocument, GetPage, CreateCanvas, GetContext, GetViewport, Render])"
  by (simp add: pdfToImageDataURL_def env_render_fails_def env_no_context_def io_defs)

lemma no_context_try:
  "parseBankReceiptPDF_try env_no_context pdf_file [] =
     (Inl (Error (js ''Failed to get canvas context'')),
      [CreateWorker, ArrayBuffer, GetDocument, GetPage, CreateCanvas, GetContext, Terminate])"
  by (simp add: parseBankReceiptPDF_try_def extractTextWithOCR_def pdfToImageDataURL_def io_defs
      maxSize_def pdf_file_def env_no_context_def js_def ch_def)

lemma no_context_parse:
  "parseBankReceiptPDF env_no_context pdf_file [] =
     (Inr \<lparr>success = False, data = None, rawText = None,
           error = Some (js ''Failed to process file: Failed to get canvas context'')\<rparr>,
      [CreateWorker, ArrayBuffer, GetDocument, GetPage, CreateCanvas, GetContext, Terminate,
       ConsoleError])"
  by (simp add: parseBankReceiptPDF_def try_catch_def no_context_try parseBankReceiptPDF_catch_def
      io_return_def io_bind_def call_def js_def)

subsection \<open>Validation\<close>

text \<open>
  C5. A file of size 0 or of more than 10 MiB, and a file whose type names neither a
  PDF nor an image, is rejected by a PDFLoadError whose message is returned as it is;
  the type is checked first, then the upper bound, then emptiness. The trace is
  unchanged: no external operation is called, so neither the OCR engine nor the progress
  callback is reached.
\<close>

theorem parseBankReceiptPDF_validation_failures:
  assumes "file_size f = 0 \<or> maxSize < file_size f \<or>
     (\<not> str_includes (file_type f) (js ''pdf'') \<and> \<not> str_includes (file_type f) (js ''image''))"
  shows "parseBankReceiptPDF_try env f tr =
      (Inl (PDFLoadError
         (if \<not> str_includes (file_type f) (js ''pdf'') \<and> \<not> str_includes (file_type f) (js ''image'')
          then js ''Invalid file type. Please upload a PDF or image file.''
          else if maxSize < file_size f then js ''File size exceeds 10MB limit.''
          else js ''File is empty.'')), tr) \<and>
    parseBankReceiptPDF env f tr =
      (Inr \<lparr>success = False, data = None, rawText = None,
         error = Some
         (if \<not> str_includes (file_type f) (js ''pdf'') \<and> \<not> str_includes (file_type f) (js ''image'')
          then js ''Invalid file type. Please upload a PDF or image file.''
          else if maxSize < file_size f then js ''File size exceeds 10MB limit.''
          else js ''File is empty.'')\<rparr>, tr)"
  using assms
  by (auto simp: parseBankReceiptPDF_def parseBankReceiptPDF_try_def parseBankReceiptPDF_catch_def
      try_catch_def throw_def io_return_def)

theorem parseBankReceiptPDF_validation_failures_witness:
  "file_size empty_file = 0 \<and>
   parseBankReceiptPDF env_no_context empty_file [] =
     (Inr \<lparr>success = False, data = None, rawText = None,
           error = Some (js ''File is empty.'')\<rparr>, []) \<and>
   maxSize < file_size big_file \<and>
   parseBankReceiptPDF env_no_context big_file [] =
     (Inr \<lparr>success = False, data = None, rawText = None,
           error = Some (js ''File size exceeds 10MB limit.'')\<rparr>, []) \<and>
   \<not> str_includes (file_type text_file) (js ''pdf'') \<and>
   \<not> str_includes (file_type text_file) (js ''image'') \<and>
   parseBankReceiptPDF env_no_context text_file [] =
     (Inr \<lparr>success = False, data = None, rawText = None,
           error = Some (js ''Invalid file type. Please upload a PDF or image file.'')\<rparr>, [])"
proof -
  have e: "file_size empty_file = 0" "str_includes (file_type empty_file) (js ''pdf'')"
    "\<not> maxSize < file_size empty_file"
    by (simp_all add: empty_file_def maxSize_def js_def ch_def)
  have b: "maxSize < file_size big_file" "str_includes (file_type big_file) (js ''image'')"
    by (simp_all add: big_file_def maxSize_def js_def ch_def)
  have t: "\<not> str_includes (file_type text_file) (js ''pdf'')"
    "\<not> str_includes (file_type text_file) (js ''image'')"
    by (simp_all add: text_file_def js_def ch_def)
  show ?thesis
    using parseBankReceiptPDF_validation_failures [of empty_file env_no_context "[]"]
      parseBankReceiptPDF_validation_failures [of big_file env_no_context "[]"]
      parseBankReceiptPDF_validation_failures [of text_file env_no_context "[]"]
      e b t
    by simp
qed

subsection \<open>Every failure is returned\<close>

lemma io_bind_Inr:
  "io_bind m f tr = (Inr v, tr') \<Longrightarrow> \<exists>x tr1. m tr = (Inr x, tr1) \<and> f x tr1 = (Inr v, tr')"
  by (auto simp: io_bind_def split: prod.splits sum.splits)

lemma try_returns:
  assumes "parseBankReceiptPDF_try env f tr = (Inr r, tr')"
  shows "success r \<and> data r \<noteq> None \<and> rawText r \<noteq> None \<and> error r = None"
proof -
  from assms show ?thesis
    unfolding parseBankReceiptPDF_try_def
    by (auto simp: throw_def io_return_def dest!: io_bind_Inr split: if_splits)
qed

lemma catch_returns:
  "\<exists>r tr'. parseBankReceiptPDF_catch e tr = (Inr r, tr') \<and>
     \<not> success r \<and> data r = None \<and> rawText r = None \<and> error r \<noteq> None"
  by (cases e) (simp_all add: parseBankReceiptPDF_catch_def io_return_def io_bind_def call_def)

lemma catch_result:
  "fst (parseBankReceiptPDF_catch e tr) =
     Inr \<lparr>success = False, data = None, rawText = None,
          error = Some (case e of
                          PDFLoadError m \<Rightarrow> m
                        | PDFExtractionError m \<Rightarrow> m
                        | Error m \<Rightarrow> js ''Failed to process file: '' @ m
                        | Thrown \<Rightarrow> js ''Failed to process file: '' @ js ''Unknown error occurred'')\<rparr>"
  by (cases e)
     (simp_all add: parseBankReceiptPDF_catch_def io_return_def io_bind_def call_def js_def)

text \<open>
  C6. parseBankReceiptPDF never throws: whatever the external operations and the
  progress callback do, it returns a result. Every exception of the \<open>try\<close> block is
  returned as a failure: \<open>success\<close> is false, the message is that of a PDFLoadError or
  PDFExtractionError, or the prefixed message of any other exception, and there is
  neither data nor raw text. A result of the \<open>try\<close> block is returned as it is, and is a
  success with data and raw text and no message.
\<close>

theorem parseBankReceiptPDF_never_throws:
  "\<exists>r tr'. parseBankReceiptPDF env f tr = (Inr r, tr') \<and>
     (if success r then data r \<noteq> None \<and> rawText r \<noteq> None \<and> error r = None
      else data r = None \<and> rawText r = None \<and> error r \<noteq> None) \<and>
     (case fst (parseBankReceiptPDF_try env f tr) of
        Inl e \<Rightarrow>
          r = \<lparr>success = False, data = None, rawText = None,
               error = Some (case e of
                               PDFLoadError m \<Rightarrow> m
                             | PDFExtractionError m \<Rightarrow> m
                             | Error m \<Rightarrow> js ''Failed to process file: '' @ m
                             | Thrown \<Rightarrow>
                                 js ''Failed to process file: '' @ js ''Unknown error occurred'')\<rparr>
      | Inr r' \<Rightarrow> r = r' \<and> success r)"
proof (cases "parseBankReceiptPDF_try env f tr")
  case (Pair res tr1)
  show ?thesis
  proof (cases res)
    case (Inl e)
    obtain x tr' where c: "parseBankReceiptPDF_catch e tr1 = (x, tr')"
      by (cases "parseBankReceiptPDF_catch e tr1")
    with catch_result [of e tr1] have
      "x = Inr \<lparr>success = False, data = None, rawText = None,
          error = Some (case e of
                          PDFLoadError m \<Rightarrow> m
                        | PDFExtractionError m \<Rightarrow> m
                        | Error m \<Rightarrow> js ''Failed to process file: '' @ m
                        | Thrown \<Rightarrow> js ''Failed to process file: '' @ js ''Unknown error occurred'')\<rparr>"
      by simp
    with Pair Inl c show ?thesis
      by (simp add: parseBankReceiptPDF_def try_catch_def)
  next
    case (Inr r)
    with Pair try_returns [of env f tr r tr1] show ?thesis
      by (simp add: parseBankReceiptPDF_def try_catch_def)
  qed
qed

subsection \<open>Failure to render the page\<close>

text \<open>
  C4 (as amended). For a PDF file that passes validation, when the worker is created and
  terminated without error and the document and its first page are loaded: if
  \<open>getContext\<close> returns \<open>null\<close>, the exception is a plain Error and the result is the
  wrapped message \<open>Failed to process file: Failed to get canvas context\<close>; if the
  rendering of the page fails with an Error of message \<open>m\<close>, the result is the wrapped
  message \<open>Failed to process file: m\<close>. Neither is a PDFLoadError.
\<close>

theorem parseBankReceiptPDF_render_failure_is_wrapped:
  assumes "file_type f = js ''application/pdf''" and "0 < file_size f" and "file_size f \<le> maxSize"
    and "case onProgress env of None \<Rightarrow> True | Some callback \<Rightarrow> callback 10 = None"
    and "createWorker_result env = None" and "terminate_result env = None"
    and "arrayBuffer_result env = None" and "getDocument_result env = None"
    and "getPage_result env = None" and "createCanvas_result env = None"
  shows "(getContext_result env = Inr False \<longrightarrow>
           fst (parseBankReceiptPDF_try env f tr) = Inl (Error (js ''Failed to get canvas context'')) \<and>
           fst (parseBankReceiptPDF env f tr) =
             Inr \<lparr>success = False, data = None, rawText = None,
                  error = Some (js ''Failed to process file: Failed to get canvas context'')\<rparr>) \<and>
         (getContext_result env = Inr True \<and> getViewport_result env = None \<and>
          render_result env = Some (Error m) \<longrightarrow>
           fst (parseBankReceiptPDF_try env f tr) = Inl (Error m) \<and>
           fst (parseBankReceiptPDF env f tr) =
             Inr \<lparr>success = False, data = None, rawText = None,
                  error = Some (js ''Failed to process file: '' @ m)\<rparr>)"
proof -
  have pre: "\<not> (\<not> str_includes (file_type f) (js ''pdf'') \<and> \<not> str_includes (file_type f) (js ''image''))"
    "\<not> maxSize < file_size f" "file_size f \<noteq> 0"
    using assms(1-3) str_includes_pdf by auto
  have pr: "progress env 10 tr = (Inr (), tr @ (case onProgress env of None \<Rightarrow> [] | Some c \<Rightarrow> [OnProgress 10]))"
    using assms(4) by (auto simp: progress_def io_return_def call_def unit_outcome_def split: option.splits)
  have 1: "fst (parseBankReceiptPDF_try env f tr) = Inl (Error (js ''Failed to get canvas context''))"
    if "getContext_result env = Inr False"
    using that pre pr assms(1,5-10)
    by (simp add: parseBankReceiptPDF_try_def extractTextWithOCR_def pdfToImageDataURL_def
        io_return_def throw_def io_bind_def call_def unit_outcome_def try_finally_def)
  have 2: "fst (parseBankReceiptPDF_try env f tr) = Inl (Error m)"
    if "getContext_result env = Inr True" "getViewport_result env = None" "render_result env = Some (Error m)"
    using that pre pr assms(1,5-10)
    by (simp add: parseBankReceiptPDF_try_def extractTextWithOCR_def pdfToImageDataURL_def
        io_return_def throw_def io_bind_def call_def unit_outcome_def try_finally_def)
  have 3: "fst (parseBankReceiptPDF env f tr) =
             Inr \<lparr>success = False, data = None, rawText = None,
                  error = Some (js ''Failed to process file: '' @ x)\<rparr>"
    if "fst (parseBankReceiptPDF_try env f tr) = Inl (Error x)" for x
    using that
    by (cases "parseBankReceiptPDF_try env f tr")
       (simp add: parseBankReceiptPDF_def try_catch_def parseBankReceiptPDF_catch_def
        io_return_def io_bind_def call_def)
  show ?thesis
    using 1 2 3 [of "js ''Failed to get canvas context''"] 3 [of m] by (simp add: js_def)
qed

theorem parseBankReceiptPDF_render_failure_is_wrapped_witness:
  "getContext_result env_no_context = Inr False \<and>
   fst (parseBankReceiptPDF env_no_context pdf_file []) =
     Inr \<lparr>success = False, data = None, rawText = None,
          error = Some (js ''Failed to process file: Failed to get canvas context'')\<rparr> \<and>
   render_result env_render_fails = Some (Error (js ''Rendering cancelled'')) \<and>
   fst (parseBankReceiptPDF env_render_fails pdf_file []) =
     Inr \<lparr>success = False, data = None, rawText = None,
          error = Some (js ''Failed to process file: '' @ js ''Rendering cancelled'')\<rparr>"
proof -
  have f: "file_type pdf_file = js ''application/pdf''" "0 < file_size pdf_file"
    "file_size pdf_file \<le> maxSize"
    by (simp_all add: pdf_file_def maxSize_def)
  have 1: "getContext_result env_no_context = Inr False"
    by (simp add: env_no_context_def)
  have 2: "getContext_result env_render_fails = Inr True \<and>
      getViewport_result env_render_fails = None \<and>
      render_result env_render_fails = Some (Error (js ''Rendering cancelled''))"
    by (simp add: env_render_fails_def env_no_context_def)
  have a: "fst (parseBankReceiptPDF env_no_context pdf_file []) =
     Inr \<lparr>success = False, data = None, rawText = None,
          error = Some (js ''Failed to process file: Failed to get canvas context'')\<rparr>"
    using parseBankReceiptPDF_render_failure_is_wrapped
      [where f = pdf_file and env = env_no_context and tr = "[]", OF f] 1
    by (simp add: env_no_context_def)
  have b: "fst (parseBankReceiptPDF env_render_fails pdf_file []) =
     Inr \<lparr>success = False, data = None, rawText = None,
          error = Some (js ''Failed to process file: '' @ js ''Rendering cancelled'')\<rparr>"
    using parseBankReceiptPDF_render_failure_is_wrapped
      [where f = pdf_file and env = env_render_fails and tr = "[]"
        and m = "js ''Rendering cancelled''", OF f] 2
    by (simp add: env_render_fails_def env_no_context_def)
  show ?thesis using 1 2 a b by simp
qed

text \<open>
  C4 as stated fails: with no canvas context the exception that reaches the \<open>catch\<close> block
  is a plain Error, and the result has the generic wrapped shape.
\<close>

theorem parseBankReceiptPDF_context_failure_counterexample:
  "fst (parseBankReceiptPDF_try env_no_context pdf_file []) =
     Inl (Error (js ''Failed to get canvas context'')) \<and>
   fst (parseBankReceiptPDF env_no_context pdf_file []) =
     Inr \<lparr>success = False, data = None, rawText = None,
          error = Some (js ''Failed to process file: Failed to get canvas context'')\<rparr>"
  by (simp add: no_context_try no_context_parse)

subsection \<open>Release of the document and of the worker\<close>

text \<open>The worker, once created, is terminated on every path.\<close>

lemma worker_terminated:
  "createWorker_result env = None \<Longrightarrow> Terminate \<in> set (snd (extractTextWithOCR env f tr))"
  by (simp add: extractTextWithOCR_def io_bind_def call_def unit_outcome_def try_finally_def
      split: prod.splits sum.splits)

text \<open>On the path that returns, the document has been destroyed.\<close>

lemma destroy_on_success:
  "pdfToImageDataURL env f tr = (Inr url, tr') \<Longrightarrow> Destroy \<in> set tr'"
  unfolding pdfToImageDataURL_def
  by (auto simp: throw_def call_def dest!: io_bind_Inr split: if_splits)

text \<open>
  \<open>destroy\<close> is called only after the context has been obtained and the page rendered: on
  every path on which one of the two fails, the document stays open.
\<close>

lemma destroy_requires_render:
  assumes "Destroy \<in> set (snd (pdfToImageDataURL env f tr))" and "Destroy \<notin> set tr"
  shows "getDocument_result env = None \<and> getContext_result env = Inr True \<and>
         render_result env = None"
  using assms
  by (auto simp: pdfToImageDataURL_def io_bind_def call_def throw_def unit_outcome_def
      split: option.splits sum.splits if_splits)

text \<open>
  C7. The document is not released on the failure paths. When \<open>getContext\<close> returns
  \<open>null\<close>, and when the rendering fails, pdfToImageDataURL throws after the document has
  been loaded and before \<open>destroy\<close> is called: the traces end without \<open>Destroy\<close>.
\<close>

theorem pdfToImageDataURL_failure_leaves_document_open:
  "getDocument_result env_no_context = None \<and>
   pdfToImageDataURL env_no_context pdf_file [] =
     (Inl (Error (js ''Failed to get canvas context'')),
      [ArrayBuffer, GetDocument, GetPage, CreateCanvas, GetContext]) \<and>
   Destroy \<notin> set (snd (pdfToImageDataURL env_no_context pdf_file [])) \<and>
   getDocument_result env_render_fails = None \<and>
   pdfToImageDataURL env_render_fails pdf_file [] =
     (Inl (Error (js ''Rendering cancelled'')),
      [ArrayBuffer, GetDocument, GetPage, CreateCanvas, GetContext, GetViewport, Render]) \<and>
   Destroy \<notin> set (snd (pdfToImageDataURL env_render_fails pdf_file []))"
proof -
  have "getDocument_result env_no_context = None" "getDocument_result env_render_fails = None"
    by (simp_all add: env_render_fails_def env_no_context_def)
  then show ?thesis
    by (simp add: no_context_pdfToImageDataURL render_fails_pdfToImageDataURL)
qed

section \<open>Properties of parseDate\<close>

lemmas date_eval = parseDate_def int_captures_def format_mdy_def format_ymd_def parseInt_def
  is_digit_def digits_value_def window_year_def date_of_parts_def new_Date_def MakeDay_def
  DayFromYear_def days_before_month_def leap_year_def msPerDay_def isValid_def

lemma days_before_month_bounds: "0 \<le> days_before_month y mn \<and> days_before_month y mn \<le> 335"
  by (simp add: days_before_month_def)

lemma DayFromYear_bounds:
  assumes "-1 \<le> y" "y \<le> 10007"
  shows "-3000000 \<le> DayFromYear y \<and> DayFromYear y \<le> 3000000"
proof -
  define a b c where "a = (y - 1969) div 4" and "b = (y - 1901) div 100"
    and "c = (y - 1601) div 400"
  have "-493 \<le> a" "a \<le> 2010" "-20 \<le> b" "b \<le> 82" "-5 \<le> c" "c \<le> 22"
    unfolding a_def b_def c_def using assms by linarith+
  moreover have "DayFromYear y = 365 * y - 719050 + a - b + c"
    by (simp add: DayFromYear_def a_def b_def c_def)
  ultimately show ?thesis using assms by simp
qed

lemma MakeDay_bounds:
  assumes "0 \<le> y" "y \<le> 9999" "-1 \<le> m" "m \<le> 98" "0 \<le> d" "d \<le> 99"
  shows "-4000000 \<le> MakeDay y m d \<and> MakeDay y m d \<le> 4000000"
proof -
  define ym where "ym = y + m div 12"
  define D where "D = DayFromYear ym"
  define B where "B = days_before_month ym (m mod 12)"
  have "-1 \<le> ym" "ym \<le> 10007" unfolding ym_def using assms by linarith+
  then have "-3000000 \<le> D \<and> D \<le> 3000000" unfolding D_def by (rule DayFromYear_bounds)
  moreover have "0 \<le> B" "B \<le> 335"
    unfolding B_def using days_before_month_bounds by blast+
  moreover have "MakeDay y m d = D + B + d - 1"
    by (simp add: MakeDay_def Let_def D_def B_def ym_def)
  ultimately show ?thesis using assms(5,6) by simp
qed

lemma new_Date_valid:
  assumes "0 \<le> y" "y \<le> 9999" "-1 \<le> m" "m \<le> 98" "0 \<le> d" "d \<le> 99"
  shows "isValid (new_Date y m d)"
proof -
  define yr where "yr = (if 0 \<le> y \<and> y \<le> 99 then 1900 + y else y)"
  define t where "t = MakeDay yr m d"
  have "0 \<le> yr" "yr \<le> 9999" unfolding yr_def using assms by auto
  then have "-4000000 \<le> t \<and> t \<le> 4000000"
    unfolding t_def using assms(3-6) by (intro MakeDay_bounds)
  then have "\<bar>t * msPerDay\<bar> \<le> 8640000000000000"
    by (simp add: msPerDay_def abs_le_iff)
  then show ?thesis
    by (simp add: new_Date_def isValid_def Let_def yr_def t_def)
qed

lemma digits_value_1: "is_digit a \<Longrightarrow> digits_value [a] = int a - 48"
  by (simp add: digits_value_def)

lemma digits_value_2: "digits_value [a, b] = 10 * (int a - 48) + (int b - 48)"
  by (simp add: digits_value_def)

lemma digits_value_bounds:
  "list_all is_digit ds \<Longrightarrow> 0 \<le> digits_value ds \<and> digits_value ds < 10 ^ length ds"
proof (induction ds rule: rev_induct)
  case Nil
  then show ?case by (simp add: digits_value_def)
next
  case (snoc c ds)
  then have "0 \<le> digits_value ds" "digits_value ds < 10 ^ length ds" "48 \<le> c" "c \<le> 57"
    by (simp_all add: is_digit_def)
  moreover have "digits_value (ds @ [c]) = 10 * digits_value ds + (int c - 48)"
    by (simp add: digits_value_def)
  ultimately show ?case by (simp add: is_digit_def)
qed

lemma parseInt_digits:
  "list_all is_digit ds \<Longrightarrow> ds \<noteq> [] \<Longrightarrow> parseInt ds = Some (digits_value ds)"
proof -
  assume d: "list_all is_digit ds" and ne: "ds \<noteq> []"
  then obtain c r where ds: "ds = c # r" by (cases ds) auto
  with d have c: "48 \<le> c" "c \<le> 57" by (simp_all add: is_digit_def)
  then have ns: "\<not> is_space c" by (simp add: is_space_def)
  have tw: "takeWhile is_digit ds = ds" using d by (simp add: takeWhile_eq_all_conv list_all_iff)
  show ?thesis
    using ns c tw ne unfolding parseInt_def ds
    by (simp add: ch_def Let_def)
qed

lemma exec_mdy_shape:
  assumes "is_digit a" "is_digit b" "is_digit c" "is_digit d" "is_digit e" "is_digit f"
    and "s1 = 45 \<or> s1 = 47" "s2 = 45 \<or> s2 = 47"
  shows "fst (RegExpBuiltinExec format_mdy ([a] @ [s1] @ [c] @ [s2] @ [e, f])) =
           Some ([a] @ [s1] @ [c] @ [s2] @ [e, f], [[a], [c], [e, f]])"
    and "fst (RegExpBuiltinExec format_mdy ([a, b] @ [s1] @ [c] @ [s2] @ [e, f])) =
           Some ([a, b] @ [s1] @ [c] @ [s2] @ [e, f], [[a, b], [c], [e, f]])"
    and "fst (RegExpBuiltinExec format_mdy ([a] @ [s1] @ [c, d] @ [s2] @ [e, f])) =
           Some ([a] @ [s1] @ [c, d] @ [s2] @ [e, f], [[a], [c, d], [e, f]])"
    and "fst (RegExpBuiltinExec format_mdy ([a, b] @ [s1] @ [c, d] @ [s2] @ [e, f])) =
           Some ([a, b] @ [s1] @ [c, d] @ [s2] @ [e, f], [[a, b], [c, d], [e, f]])"
  using assms
  by (auto simp: format_mdy_def regex_eval is_digit_def)

lemma one_or_two:
  "length D = 1 \<or> length D = 2 \<Longrightarrow> (\<exists>a. D = [a]) \<or> (\<exists>a b. D = [a, b])"
  by (cases D; cases "tl D"; cases "tl (tl D)") auto

lemma int_captures_mdy:
  assumes D1: "list_all is_digit D1" "length D1 = 1 \<or> length D1 = 2"
    and D2: "list_all is_digit D2" "length D2 = 1 \<or> length D2 = 2"
    and Y: "list_all is_digit Y" "length Y = 2"
    and seps: "s1 = 45 \<or> s1 = 47" "s2 = 45 \<or> s2 = 47"
  shows "int_captures format_mdy (D1 @ [s1] @ D2 @ [s2] @ Y) =
           Some (Some (digits_value D1), Some (digits_value D2), Some (digits_value Y))"
proof -
  from Y(2) obtain e f where y: "Y = [e, f]"
    by (cases Y; cases "tl Y"; cases "tl (tl Y)") auto
  have ne: "D1 \<noteq> []" "D2 \<noteq> []" "Y \<noteq> []" using D1(2) D2(2) Y(2) by auto
  have "fst (RegExpBuiltinExec format_mdy (D1 @ [s1] @ D2 @ [s2] @ Y)) =
           Some (D1 @ [s1] @ D2 @ [s2] @ Y, [D1, D2, Y])"
    using one_or_two [OF D1(2)] one_or_two [OF D2(2)]
  proof (elim disjE exE)
    fix a c
    assume "D1 = [a]" "D2 = [c]"
    then show ?thesis
      using exec_mdy_shape(1) [of a a c c e f s1 s2] D1(1) D2(1) Y(1) seps by (simp add: y)
  next
    fix a c d
    assume "D1 = [a]" "D2 = [c, d]"
    then show ?thesis
      using exec_mdy_shape(3) [of a a c d e f s1 s2] D1(1) D2(1) Y(1) seps by (simp add: y)
  next
    fix a b c
    assume "D1 = [a, b]" "D2 = [c]"
    then show ?thesis
      using exec_mdy_shape(2) [of a b c c e f s1 s2] D1(1) D2(1) Y(1) seps by (simp add: y)
  next
    fix a b c d
    assume "D1 = [a, b]" "D2 = [c, d]"
    then show ?thesis
      using exec_mdy_shape(4) [of a b c d e f s1 s2] D1(1) D2(1) Y(1) seps by (simp add: y)
  qed
  then show ?thesis
    using parseInt_digits [OF D1(1) ne(1)] parseInt_digits [OF D2(1) ne(2)]
      parseInt_digits [OF Y(1) ne(3)]
    by (simp add: int_captures_def)
qed

text \<open>
  For every string \<open>D1 s1 D2 s2 Y\<close> with one or two digits \<open>D1\<close>, one or two digits \<open>D2\<close>, two
  digits \<open>Y\<close> and separators \<open>-\<close> or \<open>/\<close>, parseDate builds the Date of month \<open>D1\<close>, day
  \<open>D2\<close> and year \<open>2000 + Y\<close> for \<open>Y < 50\<close>, \<open>1900 + Y\<close> otherwise.
\<close>

lemma parseDate_two_digit_year:
  assumes D1: "list_all is_digit D1" "length D1 = 1 \<or> length D1 = 2"
    and D2: "list_all is_digit D2" "length D2 = 1 \<or> length D2 = 2"
    and Y: "list_all is_digit Y" "length Y = 2"
    and seps: "s1 = 45 \<or> s1 = 47" "s2 = 45 \<or> s2 = 47"
  shows "parseDate pISO (D1 @ [s1] @ D2 @ [s2] @ Y) =
           Some (new_Date
                  (if digits_value Y < 50 then 2000 + digits_value Y else 1900 + digits_value Y)
                  (digits_value D1 - 1) (digits_value D2))"
proof -
  define y m d where "y = digits_value Y" and "m = digits_value D1" and "d = digits_value D2"
  have y: "0 \<le> y" "y < 100"
    using digits_value_bounds [OF Y(1)] Y(2) by (simp_all add: y_def)
  have m: "0 \<le> m" "m < 100"
    using digits_value_bounds [OF D1(1)] D1(2) by (auto simp: m_def)
  have d: "0 \<le> d" "d < 100"
    using digits_value_bounds [OF D2(1)] D2(2) by (auto simp: d_def)
  have w: "window_year (Some y) = Some (if y < 50 then 2000 + y else 1900 + y)"
    using y by (simp add: window_year_def)
  have v: "isValid (new_Date (if y < 50 then 2000 + y else 1900 + y) (m - 1) d)"
    using y m d by (intro new_Date_valid) auto
  show ?thesis
    using int_captures_mdy [OF assms] w v
    by (simp add: parseDate_def date_of_parts_def y_def m_def d_def)
qed

lemma exec_Some:
  assumes "plain R" and "fst (RegExpBuiltinExec R s) = Some (m, cs)"
  shows "\<exists>i s' segs. bt (ignoreCase R) (toks R) i s' = Some segs \<and> cs = caps (toks R) segs None"
proof -
  from assms obtain i where "search (ignoreCase R) (toks R) 0 s = Some (i, m, cs)"
    by (auto simp: plain_def RegExpBuiltinExec_plain)
  from search_Some [OF this] obtain s' where "match_at (ignoreCase R) (toks R) i s' = Some (m, cs)"
    by blast
  from match_at_Some [OF this] show ?thesis by blast
qed

lemma digit_class: "atom_matches False (Cls [digit]) = is_digit"
  by (rule ext) (simp add: digit_def is_digit_def ch_def)

lemma int_captures_mdy_digits:
  assumes "int_captures format_mdy s = Some (m, d, y)"
  shows "\<exists>c1 c2 c3. m = Some (digits_value c1) \<and> d = Some (digits_value c2) \<and>
           y = Some (digits_value c3) \<and> list_all is_digit c1 \<and> list_all is_digit c2 \<and>
           list_all is_digit c3 \<and> 1 \<le> length c1 \<and> length c1 \<le> 2 \<and> 1 \<le> length c2 \<and>
           length c2 \<le> 2 \<and> 2 \<le> length c3 \<and> length c3 \<le> 4"
proof -
  have p: "plain format_mdy" by (simp add: plain_def format_mdy_def regex_literal_def)
  from assms obtain mm c1 c2 c3 where
    e: "fst (RegExpBuiltinExec format_mdy s) = Some (mm, [c1, c2, c3])"
    and v: "m = parseInt c1" "d = parseInt c2" "y = parseInt c3"
    by (auto simp: int_captures_def split: option.splits list.splits)
  from exec_Some [OF p e] obtain i s' segs where
    bt: "bt (ignoreCase format_mdy) (toks format_mdy) i s' = Some segs"
    and c: "[c1, c2, c3] = caps (toks format_mdy) segs None" by blast
  from bt_segs(1) [OF bt] have "list_all2 (seg_ok (ignoreCase format_mdy)) (toks format_mdy) segs" .
  then obtain g3 g7 g11 where
    "caps (toks format_mdy) segs None = [g3, g7, g11]"
    "list_all is_digit g3" "1 \<le> length g3" "length g3 \<le> 2"
    "list_all is_digit g7" "1 \<le> length g7" "length g7 \<le> 2"
    "list_all is_digit g11" "2 \<le> length g11" "length g11 \<le> 4"
    by (auto simp: format_mdy_def regex_literal_def list_all2_Cons1 once_def between_def
        digit_class)
  with c have "list_all is_digit c1" "1 \<le> length c1" "length c1 \<le> 2"
    "list_all is_digit c2" "1 \<le> length c2" "length c2 \<le> 2"
    "list_all is_digit c3" "2 \<le> length c3" "length c3 \<le> 4" by simp_all
  moreover from this have "c1 \<noteq> []" "c2 \<noteq> []" "c3 \<noteq> []" by auto
  ultimately show ?thesis
    using v parseInt_digits by (intro exI [of _ c1] exI [of _ c2] exI [of _ c3]) simp
qed

lemma int_captures_ymd_digits:
  assumes "int_captures format_ymd s = Some (y, m, d)"
  shows "\<exists>c1 c2 c3. y = Some (digits_value c1) \<and> m = Some (digits_value c2) \<and>
           d = Some (digits_value c3) \<and> list_all is_digit c1 \<and> list_all is_digit c2 \<and>
           list_all is_digit c3 \<and> length c1 = 4 \<and> 1 \<le> length c2 \<and>
           length c2 \<le> 2 \<and> 1 \<le> length c3 \<and> length c3 \<le> 2"
proof -
  have p: "plain format_ymd" by (simp add: plain_def format_ymd_def regex_literal_def)
  from assms obtain mm c1 c2 c3 where
    e: "fst (RegExpBuiltinExec format_ymd s) = Some (mm, [c1, c2, c3])"
    and v: "y = parseInt c1" "m = parseInt c2" "d = parseInt c3"
    by (auto simp: int_captures_def split: option.splits list.splits)
  from exec_Some [OF p e] obtain i s' segs where
    bt: "bt (ignoreCase format_ymd) (toks format_ymd) i s' = Some segs"
    and c: "[c1, c2, c3] = caps (toks format_ymd) segs None" by blast
  from bt_segs(1) [OF bt] have "list_all2 (seg_ok (ignoreCase format_ymd)) (toks format_ymd) segs" .
  then obtain g3 g7 g11 where
    "caps (toks format_ymd) segs None = [g3, g7, g11]"
    "list_all is_digit g3" "length g3 = 4"
    "list_all is_digit g7" "1 \<le> length g7" "length g7 \<le> 2"
    "list_all is_digit g11" "1 \<le> length g11" "length g11 \<le> 2"
    by (auto simp: format_ymd_def regex_literal_def list_all2_Cons1 once_def between_def
        digit_class)
  with c have "list_all is_digit c1" "length c1 = 4"
    "list_all is_digit c2" "1 \<le> length c2" "length c2 \<le> 2"
    "list_all is_digit c3" "1 \<le> length c3" "length c3 \<le> 2" by simp_all
  moreover from this have "c1 \<noteq> []" "c2 \<noteq> []" "c3 \<noteq> []" by auto
  ultimately show ?thesis
    using v parseInt_digits by (intro exI [of _ c1] exI [of _ c2] exI [of _ c3]) simp
qed

lemma digits_value_less:
  assumes "list_all is_digit ds" "length ds \<le> n"
  shows "0 \<le> digits_value ds \<and> digits_value ds < 10 ^ n"
proof -
  have "(10::int) ^ length ds \<le> 10 ^ n" using assms(2) by (simp add: power_increasing)
  with digits_value_bounds [OF assms(1)] show ?thesis by linarith
qed

text \<open>The validity check of the two formats never fails.\<close>

lemma mdy_date_valid:
  assumes "int_captures format_mdy s = Some (m, d, y)"
  shows "isValid (date_of_parts (window_year y) m d)"
proof -
  from int_captures_mdy_digits [OF assms] obtain c1 c2 c3 where
    v: "m = Some (digits_value c1)" "d = Some (digits_value c2)" "y = Some (digits_value c3)"
    and dg: "list_all is_digit c1" "list_all is_digit c2" "list_all is_digit c3"
    and ln: "length c1 \<le> 2" "length c2 \<le> 2" "length c3 \<le> 4" by blast
  have b: "0 \<le> digits_value c1 \<and> digits_value c1 < 10 ^ 2"
    "0 \<le> digits_value c2 \<and> digits_value c2 < 10 ^ 2"
    "0 \<le> digits_value c3 \<and> digits_value c3 < 10 ^ 4"
    using dg ln by (intro digits_value_less; simp)+
  define yy where "yy = (if digits_value c3 < 100
     then digits_value c3 + (if digits_value c3 < 50 then 2000 else 1900) else digits_value c3)"
  have "0 \<le> yy" "yy \<le> 9999" using b(3) by (auto simp: yy_def)
  then have "isValid (new_Date yy (digits_value c1 - 1) (digits_value c2))"
    using b(1,2) by (intro new_Date_valid) auto
  then show ?thesis
    by (simp add: v window_year_def date_of_parts_def yy_def)
qed

lemma ymd_date_valid:
  assumes "int_captures format_ymd s = Some (y, m, d)"
  shows "isValid (date_of_parts y m d)"
proof -
  from int_captures_ymd_digits [OF assms] obtain c1 c2 c3 where
    v: "y = Some (digits_value c1)" "m = Some (digits_value c2)" "d = Some (digits_value c3)"
    and dg: "list_all is_digit c1" "list_all is_digit c2" "list_all is_digit c3"
    and ln: "length c1 = 4" "length c2 \<le> 2" "length c3 \<le> 2" by blast
  have b: "0 \<le> digits_value c1 \<and> digits_value c1 < 10 ^ 4"
    "0 \<le> digits_value c2 \<and> digits_value c2 < 10 ^ 2"
    "0 \<le> digits_value c3 \<and> digits_value c3 < 10 ^ 2"
    using dg ln by (intro digits_value_less; simp)+
  then have "isValid (new_Date (digits_value c1) (digits_value c2 - 1) (digits_value c3))"
    by (intro new_Date_valid) auto
  then show ?thesis
    by (simp add: v date_of_parts_def)
qed

text \<open>
  parseDate returns \<open>null\<close> exactly when neither format matches and \<open>parseISO\<close> gives an
  invalid Date.
\<close>

lemma parseDate_None_iff:
  "parseDate pISO s = None \<longleftrightarrow>
     int_captures format_mdy s = None \<and> int_captures format_ymd s = None \<and> \<not> isValid (pISO s)"
proof -
  have 1: "isValid (date_of_parts (window_year y) m d)"
    if "int_captures format_mdy s = Some (m, d, y)" for m d y
    using that by (rule mdy_date_valid)
  have 2: "isValid (date_of_parts y m d)"
    if "int_captures format_ymd s = Some (y, m, d)" for m d y
    using that by (rule ymd_date_valid)
  show ?thesis
    using 1 2 by (auto simp: parseDate_def Let_def split: option.splits)
qed

lemma february_30: "new_Date 2025 1 30 = new_Date 2025 2 2"
  by (simp add: date_eval)

text \<open>
  C9. A string of the month-first shape that names no calendar date is not rejected:
  \<open>02/30/25\<close> is parsed as month 2, day 30 of 2025, which the Date constructor carries
  over to 2 March 2025, the Date that \<open>03/02/25\<close> gives.
\<close>

theorem parseDate_rolls_over_invalid_calendar_date:
  "parseDate pISO (js ''02/30/25'') = Some (new_Date 2025 2 2) \<and>
   parseDate pISO (js ''02/30/25'') = parseDate pISO (js ''03/02/25'')"
  by (simp add: date_eval regex_eval)

section \<open>Properties of receiptDataToExpense\<close>

text \<open>
  C10. The expense built from a receipt has the category \<open>Other\<close>; its amount is 0 when
  the receipt has no amount or parseAmount returns \<open>null\<close>; its description is
  \<open>Unknown transaction\<close> when the receipt has no recipient; its date is the current date
  when the receipt has no date or parseDate returns \<open>null\<close>; sender, recipient and
  transaction type are those of the receipt.
\<close>

theorem receiptDataToExpense_defaults:
  "e_category (receiptDataToExpense pf pISO now d) = js ''Other'' \<and>
   (r_amount d = None \<or> (\<exists>a. r_amount d = Some a \<and> parseAmount pf a = None) \<longrightarrow>
      e_amount (receiptDataToExpense pf pISO now d) = Num 0) \<and>
   (r_to d = None \<longrightarrow> e_description (receiptDataToExpense pf pISO now d) = js ''Unknown transaction'') \<and>
   (r_date d = None \<or> (\<exists>t. r_date d = Some t \<and> parseDate pISO t = None) \<longrightarrow>
      e_date (receiptDataToExpense pf pISO now d) = now) \<and>
   e_from (receiptDataToExpense pf pISO now d) = r_from d \<and>
   e_to (receiptDataToExpense pf pISO now d) = r_to d \<and>
   e_transactionType (receiptDataToExpense pf pISO now d) = r_transactionType d"
  by (auto simp: receiptDataToExpense_def Let_def split: option.splits)

lemma unparseable_amount: "parseAmount (\<lambda>s. NaN) (js ''n/a'') = None"
  by (simp add: parseAmount_def Let_def)

lemma unparseable_date: "parseDate (\<lambda>s. InvalidDate) (js ''soon'') = None"
  by (simp add: parseDate_def int_captures_def format_mdy_def format_ymd_def regex_eval isValid_def)

theorem receiptDataToExpense_defaults_witness:
  "r_amount receipt_without_values = None \<and> r_to receipt_without_values = None \<and>
   r_date receipt_without_values = None \<and>
   e_amount (receiptDataToExpense (\<lambda>s. NaN) (\<lambda>s. InvalidDate) (Time 0) receipt_without_values) = Num 0 \<and>
   e_description (receiptDataToExpense (\<lambda>s. NaN) (\<lambda>s. InvalidDate) (Time 0) receipt_without_values) =
     js ''Unknown transaction'' \<and>
   e_date (receiptDataToExpense (\<lambda>s. NaN) (\<lambda>s. InvalidDate) (Time 0) receipt_without_values) = Time 0 \<and>
   parseAmount (\<lambda>s. NaN) (js ''n/a'') = None \<and> parseDate (\<lambda>s. InvalidDate) (js ''soon'') = None \<and>
   e_amount (receiptDataToExpense (\<lambda>s. NaN) (\<lambda>s. InvalidDate) (Time 0) receipt_unparseable) = Num 0 \<and>
   e_date (receiptDataToExpense (\<lambda>s. NaN) (\<lambda>s. InvalidDate) (Time 0) receipt_unparseable) = Time 0"
  using receiptDataToExpense_defaults [of "\<lambda>s. NaN" "\<lambda>s. InvalidDate" "Time 0" receipt_without_values]
    receiptDataToExpense_defaults [of "\<lambda>s. NaN" "\<lambda>s. InvalidDate" "Time 0" receipt_unparseable]
    unparseable_amount unparseable_date
  by (simp add: receipt_without_values_def receipt_unparseable_def)

end
